theory Spec2Isabelle
  imports Complex_Main "HOL-Library.AList"
begin

section \<open>Python values shared by the pipeline\<close>

text \<open>
  The exceptions the modelled code can raise. The specification's
  \<open>ConfigurationError\<close> is Python's \<open>ValueError\<close> (the class raised for an invalid
  \<open>gradient_accumulation_steps\<close>), its \<open>LookupError\<close> is \<open>KeyError\<close>/\<open>IndexError\<close>.
\<close>

datatype py_error = ValueError | IndexError | KeyError | TypeError
  | AttributeError | ZeroDivisionError

text \<open>
  A Python \<open>dict\<close> from tokens to ids, kept as an association list in insertion order.
  \<open>d[k] = v\<close> is \<open>AList.update k v d\<close> (an existing key keeps its place, a new key goes
  to the end), \<open>d.get(k)\<close> is \<open>map_of d k\<close>, \<open>d[k]\<close> raises \<open>KeyError\<close> on a missing key,
  \<open>len(d)\<close> is the length of the list.
\<close>

type_synonym dict = "(string \<times> int) list"

definition dict_index :: "('k \<times> 'v) list \<Rightarrow> 'k \<Rightarrow> py_error + 'v" where
  "dict_index d k = (case map_of d k of None \<Rightarrow> Inl KeyError | Some v \<Rightarrow> Inr v)"

text \<open>\<open>OrderedDict(items)\<close>: the pairs are stored one by one, a later pair overwriting
  an earlier one with the same key.\<close>

definition dict_of_items :: "('k \<times> 'v) list \<Rightarrow> ('k \<times> 'v) list" where
  "dict_of_items items = foldl (\<lambda>d (k, v). AList.update k v d) [] items"

section \<open>Tokenizer\<close>

record tokenizer =
  doc_len :: nat
  lower_case :: bool
  vocab :: dict
  ids_to_tokens :: "(int \<times> string) list"

text \<open>
  \<open>Tokenizer.__init__\<close>. \<open>CountVectorizer\<close> is scikit-learn's, not the repository's:
  the model takes it as the parameter \<open>count_vectorizer\<close>, which maps \<open>max_features\<close> and
  the documents to the fitted \<open>vocabulary_\<close> or to the exception raised.
\<close>

definition Tokenizer_init ::
  "(int \<Rightarrow> string list \<Rightarrow> py_error + dict) \<Rightarrow> string list \<Rightarrow> int \<Rightarrow> bool
     \<Rightarrow> py_error + tokenizer" where
  "Tokenizer_init count_vectorizer docs vocab_size lc =
     (case count_vectorizer (vocab_size - 2) docs of
        Inl e \<Rightarrow> Inl e
      | Inr counter_vocabulary \<Rightarrow>
          (let v1 = AList.update ''[UNK]'' (int (length counter_vocabulary)) counter_vocabulary;
               v2 = AList.update ''[MASK]'' (int (length v1)) v1
           in Inr \<lparr>doc_len = length docs, lower_case = lc, vocab = v2,
                   ids_to_tokens = dict_of_items (map (\<lambda>(tok, ids). (ids, tok)) v2)\<rparr>))"

text \<open>\<open>convert_ids_to_tokens\<close>: a loop appending \<open>self.ids_to_tokens[i]\<close>; a missing id
  raises \<open>KeyError\<close>.\<close>

fun convert_ids_to_tokens :: "tokenizer \<Rightarrow> int list \<Rightarrow> py_error + string list" where
  "convert_ids_to_tokens tk [] = Inr []"
| "convert_ids_to_tokens tk (i # ids) =
     (case dict_index (ids_to_tokens tk) i of
        Inl e \<Rightarrow> Inl e
      | Inr t \<Rightarrow> (case convert_ids_to_tokens tk ids of
                    Inl e \<Rightarrow> Inl e
                  | Inr ts \<Rightarrow> Inr (t # ts)))"

text \<open>\<open>convert_tokens_to_ids\<close>: a token whose \<open>vocab.get\<close> is \<open>None\<close> gets
  \<open>vocab["[UNK]"]\<close> (itself a \<open>KeyError\<close> when the dict has no such key).\<close>

fun convert_tokens_to_ids :: "tokenizer \<Rightarrow> string list \<Rightarrow> py_error + int list" where
  "convert_tokens_to_ids tk [] = Inr []"
| "convert_tokens_to_ids tk (token # tokens) =
     (case (case map_of (vocab tk) token of
              None \<Rightarrow> dict_index (vocab tk) ''[UNK]''
            | Some v \<Rightarrow> Inr v) of
        Inl e \<Rightarrow> Inl e
      | Inr i \<Rightarrow> (case convert_tokens_to_ids tk tokens of
                    Inl e \<Rightarrow> Inl e
                  | Inr ids \<Rightarrow> Inr (i # ids)))"

text \<open>
  What \<open>CountVectorizer\<close> promises of \<open>vocabulary_\<close>: a dict (distinct keys) that numbers
  its \<open>n\<close> terms \<open>0..n-1\<close>. Its terms come from \<open>gensim.utils.simple_preprocess\<close>, whose
  tokens are alphabetic, so neither sentinel is among them.
\<close>

definition vocabulary_ok :: "dict \<Rightarrow> bool" where
  "vocabulary_ok cv \<longleftrightarrow>
     distinct (map fst cv) \<and> distinct (map snd cv) \<and>
     (\<forall>v \<in> set (map snd cv). 0 \<le> v \<and> v < int (length cv)) \<and>
     ''[UNK]'' \<notin> set (map fst cv) \<and> ''[MASK]'' \<notin> set (map fst cv)"

section \<open>Text helpers\<close>

text \<open>
  \<open>Tokenizer.tokenize\<close> calls \<open>gensim.utils.simple_preprocess\<close>, which is not part of
  the repository. On ASCII text it lower-cases the document, takes the maximal runs
  matching \<open>((?![\d])\w)+\<close> (letters and the underscore) and keeps the runs of 2 to 15
  characters that do not start with an underscore. The model is of ASCII text only: a
  character from 0x80 on separates tokens here and is not lower-cased, whereas gensim
  keeps Unicode letters.
\<close>

definition lower_char :: "char \<Rightarrow> char" where
  "lower_char c =
     (case map_of (zip ''ABCDEFGHIJKLMNOPQRSTUVWXYZ'' ''abcdefghijklmnopqrstuvwxyz'') c of
        None \<Rightarrow> c | Some l \<Rightarrow> l)"

definition str_lower :: "string \<Rightarrow> string" where
  "str_lower s = map lower_char s"

definition is_alphabetic :: "char \<Rightarrow> bool" where
  "is_alphabetic c \<longleftrightarrow>
     c \<in> set ''abcdefghijklmnopqrstuvwxyzABCDEFGHIJKLMNOPQRSTUVWXYZ_''"

fun simple_tokenize :: "string \<Rightarrow> string \<Rightarrow> string list" where
  "simple_tokenize cur [] = (if cur = [] then [] else [cur])"
| "simple_tokenize cur (c # cs) =
     (if is_alphabetic c then simple_tokenize (cur @ [c]) cs
      else (if cur = [] then [] else [cur]) @ simple_tokenize [] cs)"

definition simple_preprocess :: "string \<Rightarrow> string list" where
  "simple_preprocess doc =
     filter (\<lambda>t. 2 \<le> length t \<and> length t \<le> 15 \<and> take 1 t \<noteq> ''_'')
       (simple_tokenize [] (str_lower doc))"

definition tokenize :: "string \<Rightarrow> string list" where
  "tokenize doc = simple_preprocess doc"

text \<open>\<open>str.strip()\<close> on ASCII text: the whitespace characters are 9-13, 28-31 and 32.
  Python also strips the whitespace beyond ASCII (0x85, 0xA0 and others), which this
  model keeps.\<close>

definition is_space :: "char \<Rightarrow> bool" where
  "is_space c \<longleftrightarrow>
     c \<in> set [CHR 0x09, CHR 0x0A, CHR 0x0B, CHR 0x0C, CHR 0x0D,
               CHR 0x1C, CHR 0x1D, CHR 0x1E, CHR 0x1F, CHR 0x20]"

definition strip :: "string \<Rightarrow> string" where
  "strip s = rev (dropWhile is_space (rev (dropWhile is_space s)))"

text \<open>\<open>' '.join(xs)\<close>.\<close>

fun join_space :: "string list \<Rightarrow> string" where
  "join_space [] = []"
| "join_space [x] = x"
| "join_space (x # y # ys) = x @ '' '' @ join_space (y # ys)"

section \<open>MyDataset: loading the corpus\<close>

record MyDataset =
  ds_tokenizer :: "tokenizer option"
  ds_vocab :: "dict option"
  seq_len :: int
  corpus_lines :: nat
  sample_counter :: nat
  all_docs :: "string list"
  num_docs :: nat
  ent_weights :: "real list"

text \<open>The corpus argument: a path, given here by the lines its file yields, or a list
  of documents.\<close>

datatype corpus = CorpusPath "string list" | CorpusList "string list"

text \<open>The \<open>for line in f\<close> loop of \<open>MyDataset.__init__\<close>, over
  \<open>(all_docs, doc, corpus_lines)\<close>.\<close>

fun read_lines :: "string list \<Rightarrow> string \<Rightarrow> nat \<Rightarrow> string list
    \<Rightarrow> string list \<times> string \<times> nat" where
  "read_lines docs doc n [] = (docs, doc, n)"
| "read_lines docs doc n (line # rest) =
     (let line' = strip line in
      if line' = [] then read_lines (docs @ [doc]) [] n rest
      else read_lines docs (doc @ line') (n + 1) rest)"

text \<open>The statement after the loop, \<open>if self.all_docs[-1] != doc and doc\<close>: the index
  \<open>-1\<close> is read first and raises \<open>IndexError\<close> on an empty list.\<close>

definition load_docs :: "corpus \<Rightarrow> py_error + string list \<times> nat" where
  "load_docs c =
     (case c of
        CorpusPath file_lines \<Rightarrow>
          (case read_lines [] [] 0 file_lines of
             (docs, doc, n) \<Rightarrow>
               if docs = [] then Inl IndexError
               else if last docs \<noteq> doc \<and> doc \<noteq> [] then Inr (docs @ [doc], n)
               else Inr (docs, n))
      | CorpusList docs \<Rightarrow> Inr (docs, 0))"

definition MyDataset_init :: "corpus \<Rightarrow> int \<Rightarrow> py_error + MyDataset" where
  "MyDataset_init c sl =
     (case load_docs c of
        Inl e \<Rightarrow> Inl e
      | Inr (docs, n) \<Rightarrow>
          Inr \<lparr>ds_tokenizer = None, ds_vocab = None, seq_len = sl, corpus_lines = n,
               sample_counter = 0, all_docs = docs, num_docs = length docs,
               ent_weights = []\<rparr>)"

definition build_vocab :: "MyDataset \<Rightarrow> tokenizer \<Rightarrow> MyDataset" where
  "build_vocab ds tk = ds\<lparr>ds_tokenizer := Some tk, ds_vocab := Some (vocab tk)\<rparr>"

section \<open>Masking\<close>

text \<open>
  The draws of Python's global \<open>random\<close> module during one call: \<open>randint_value\<close> is
  what \<open>random.randint(0, len(tokens) - 1)\<close> returns, \<open>random_values i\<close> what the
  \<open>i\<close>-th call of \<open>random.random()\<close> returns.
\<close>

record rng =
  randint_value :: nat
  random_values :: "nat \<Rightarrow> real"

text \<open>The comprehension
  \<open>[tokenizer.vocab[token] if i == mask_index else -1 for i, token in enumerate(tokens)]\<close>,
  from position \<open>i\<close> on. It runs after \<open>tokens[mask_index] = "[MASK]"\<close>, so it reads the
  list as already changed.\<close>

fun single_labels :: "dict \<Rightarrow> nat \<Rightarrow> nat \<Rightarrow> string list \<Rightarrow> py_error + int list" where
  "single_labels voc mask_index i [] = Inr []"
| "single_labels voc mask_index i (token # tokens) =
     (case (if i = mask_index then dict_index voc token else Inr (- 1)) of
        Inl e \<Rightarrow> Inl e
      | Inr l \<Rightarrow> (case single_labels voc mask_index (Suc i) tokens of
                    Inl e \<Rightarrow> Inl e
                  | Inr ls \<Rightarrow> Inr (l # ls)))"

text \<open>The \<open>else\<close> branch: the loop over \<open>enumerate(tokens)\<close>, from position \<open>i\<close> on; the
  label of a masked position is looked up for \<open>token\<close>, the loop variable, which still
  holds the original token; a \<open>KeyError\<close> falls back to \<open>vocab["[UNK]"]\<close>.\<close>

fun prob_mask :: "real \<Rightarrow> (nat \<Rightarrow> real) \<Rightarrow> dict \<Rightarrow> nat \<Rightarrow> string list
    \<Rightarrow> py_error + string list \<times> int list" where
  "prob_mask p draws voc i [] = Inr ([], [])"
| "prob_mask p draws voc i (token # tokens) =
     (if draws i < p then
        (case (case map_of voc token of
                 Some v \<Rightarrow> Inr v
               | None \<Rightarrow> dict_index voc ''[UNK]'') of
           Inl e \<Rightarrow> Inl e
         | Inr l \<Rightarrow> (case prob_mask p draws voc (Suc i) tokens of
                       Inl e \<Rightarrow> Inl e
                     | Inr (ts, ls) \<Rightarrow> Inr (''[MASK]'' # ts, l # ls)))
      else
        (case prob_mask p draws voc (Suc i) tokens of
           Inl e \<Rightarrow> Inl e
         | Inr (ts, ls) \<Rightarrow> Inr (token # ts, (- 1) # ls)))"

text \<open>\<open>random_word\<close>, with the global \<open>mask_prob\<close> as its first argument.
  \<open>random.randint(0, -1)\<close> raises \<open>ValueError\<close>; an index outside the list would raise
  \<open>IndexError\<close> at the assignment.\<close>

definition random_word :: "real \<Rightarrow> rng \<Rightarrow> string list \<Rightarrow> tokenizer
    \<Rightarrow> py_error + string list \<times> int list" where
  "random_word mask_prob r tokens tk =
     (if mask_prob = - 1 then
        (if tokens = [] then Inl ValueError
         else let mask_index = randint_value r in
           if \<not> mask_index < length tokens then Inl IndexError
           else let tokens' = tokens[mask_index := ''[MASK]''] in
             (case single_labels (vocab tk) mask_index 0 tokens' of
                Inl e \<Rightarrow> Inl e
              | Inr output_label \<Rightarrow> Inr (tokens', output_label)))
      else prob_mask mask_prob (random_values r) (vocab tk) 0 tokens)"

section \<open>Feature encoding\<close>

record InputExample =
  guid :: nat
  doc_tok :: "string list"
  ex_doc_id :: int

record InputFeatures =
  input_ids :: "int list"
  input_mask :: "int list"
  doc_id :: "int list"
  lm_label_ids :: "int list"

text \<open>The slice \<open>xs[:m]\<close>: a negative \<open>m\<close> counts from the end.\<close>

definition slice_to :: "int \<Rightarrow> 'a list \<Rightarrow> 'a list" where
  "slice_to m xs = (if 0 \<le> m then take (nat m) xs else take (nat (int (length xs) + m)) xs)"

text \<open>The loop \<open>while len(input_ids) < max_seq_length\<close>, appending to the four lists.\<close>

function zero_pad :: "int \<Rightarrow> int list \<times> int list \<times> int list \<times> int list
    \<Rightarrow> int list \<times> int list \<times> int list \<times> int list" where
  "zero_pad m (ids, msk, did, lbl) =
     (if int (length ids) < m
      then zero_pad m (ids @ [0], msk @ [0], did @ [0], lbl @ [- 1])
      else (ids, msk, did, lbl))"
  by pat_completeness auto
termination
  by (relation "measure (\<lambda>(m, ids, _). nat (m - int (length ids)))") auto

definition convert_example_to_features ::
  "real \<Rightarrow> rng \<Rightarrow> InputExample \<Rightarrow> int \<Rightarrow> tokenizer \<Rightarrow> py_error + InputFeatures" where
  "convert_example_to_features mask_prob r example max_seq_length tk =
     (case random_word mask_prob r (doc_tok example) tk of
        Inl e \<Rightarrow> Inl e
      | Inr (doc_tokens, lm_labels) \<Rightarrow>
          (case convert_tokens_to_ids tk doc_tokens of
             Inl e \<Rightarrow> Inl e
           | Inr ids \<Rightarrow>
               (let msk = replicate (length ids) 1;
                    did = replicate (length ids) (ex_doc_id example);
                    (ids1, msk1, did1, lbl1) =
                      (if int (length ids) > max_seq_length
                       then (slice_to max_seq_length ids, slice_to max_seq_length msk,
                             slice_to max_seq_length did, slice_to max_seq_length lm_labels)
                       else (ids, msk, did, lm_labels));
                    (ids2, msk2, did2, lbl2) = zero_pad max_seq_length (ids1, msk1, did1, lbl1)
                in Inr \<lparr>input_ids = ids2, input_mask = msk2, doc_id = did2,
                        lm_label_ids = lbl2\<rparr>)))"

section \<open>MyDataset: producing a sample\<close>

text \<open>\<open>vocab.get(x)\<close> used as a condition: \<open>None\<close> and \<open>0\<close> are both false.\<close>

definition truthy :: "int option \<Rightarrow> bool" where
  "truthy v = (case v of None \<Rightarrow> False | Some i \<Rightarrow> i \<noteq> 0)"

text \<open>\<open>MyDataset.__getitem__\<close>: returns the dataset with its counter advanced and the
  four lists that become the tensors.\<close>

definition getitem :: "real \<Rightarrow> rng \<Rightarrow> MyDataset \<Rightarrow> nat \<Rightarrow> py_error + MyDataset \<times> InputFeatures" where
  "getitem mask_prob r ds item =
     (let cur_id = sample_counter ds;
          ds' = ds\<lparr>sample_counter := sample_counter ds + 1\<rparr> in
      case ds_tokenizer ds of
        None \<Rightarrow> Inl AttributeError
      | Some tk \<Rightarrow>
          if \<not> item < length (all_docs ds) then Inl IndexError
          else let toks = tokenize (all_docs ds ! item);
                   toks' = filter (\<lambda>x. truthy (map_of (vocab tk) x)) toks;
                   cur_example = \<lparr>guid = cur_id, doc_tok = toks', ex_doc_id = int item\<rparr>
               in (case convert_example_to_features mask_prob r cur_example (seq_len ds) tk of
                     Inl e \<Rightarrow> Inl e
                   | Inr cur_features \<Rightarrow> Inr (ds', cur_features)))"

section \<open>Entity weights\<close>

text \<open>An entity record as \<open>load_ai_data\<close> builds it: a dict of three string sets. A
  Python \<open>set\<close> is kept as a duplicate-free list; \<open>s.update(t)\<close> adds the elements of
  \<open>t\<close> that \<open>s\<close> lacks.\<close>

record entity =
  FIELD :: "string list"
  TEC :: "string list"
  MISC :: "string list"

definition set_update :: "'a list \<Rightarrow> 'a list \<Rightarrow> 'a list" where
  "set_update s t = s @ filter (\<lambda>x. x \<notin> set s) (remdups t)"

text \<open>The loop \<open>for entity in entities\<close>. \<open>field_set\<close> is the very set stored in the
  caller's record, so \<open>field_set.update(tec_set)\<close> changes that record; the loop returns
  the records as it leaves them, with the collected \<open>ents\<close>.\<close>

fun collect_entities :: "string list \<Rightarrow> entity list \<Rightarrow> entity list \<times> string list" where
  "collect_entities ents [] = ([], ents)"
| "collect_entities ents (e # es) =
     (let field_set = set_update (FIELD e) (TEC e);
          e' = e\<lparr>FIELD := field_set\<rparr>;
          ents' = set_update ents (map str_lower field_set)
      in case collect_entities ents' es of (es', r) \<Rightarrow> (e' # es', r))"

text \<open>\<open>weights[word_id] = weight\<close> with Python's indexing.\<close>

definition list_assign :: "'a list \<Rightarrow> int \<Rightarrow> 'a \<Rightarrow> py_error + 'a list" where
  "list_assign xs i v =
     (let n = int (length xs); j = (if i < 0 then n + i else i)
      in if 0 \<le> j \<and> j < n then Inr (xs[nat j := v]) else Inl IndexError)"

fun assign_weights :: "int list \<Rightarrow> int list \<Rightarrow> real \<Rightarrow> real list \<Rightarrow> py_error + real list" where
  "assign_weights [] ent_ids w weights = Inr weights"
| "assign_weights (word_id # rest) ent_ids w weights =
     (if word_id \<in> set ent_ids
      then (case list_assign weights word_id w of
              Inl e \<Rightarrow> Inl e
            | Inr weights' \<Rightarrow> assign_weights rest ent_ids w weights')
      else assign_weights rest ent_ids w weights)"

text \<open>\<open>MyDataset.set_entities_weight\<close>: returns the dataset with \<open>ent_weights\<close> set, and
  the caller's entity records as the call leaves them.\<close>

definition set_entities_weight ::
  "MyDataset \<Rightarrow> entity list option \<Rightarrow> real
     \<Rightarrow> py_error + MyDataset \<times> entity list option" where
  "set_entities_weight ds entities w =
     (case (case entities of
              Some (e # es) \<Rightarrow>
                (case collect_entities [] (e # es) of
                   (entities', ents) \<Rightarrow>
                     (case ds_tokenizer ds of
                        None \<Rightarrow> Inl AttributeError
                      | Some tk \<Rightarrow>
                          (case convert_tokens_to_ids tk (tokenize (join_space ents)) of
                             Inl err \<Rightarrow> Inl err
                           | Inr ent_ids \<Rightarrow> Inr (ent_ids, Some entities'))))
            | _ \<Rightarrow> Inr ([], entities)) of
        Inl err \<Rightarrow> Inl err
      | Inr (ent_ids, entities') \<Rightarrow>
          (case ds_vocab ds of
             None \<Rightarrow> Inl TypeError
           | Some voc \<Rightarrow>
               (case assign_weights (map snd voc) ent_ids w (replicate (length voc) 1) of
                  Inl err \<Rightarrow> Inl err
                | Inr weights \<Rightarrow> Inr (ds\<lparr>ent_weights := weights\<rparr>, entities'))))"

section \<open>The sweep\<close>

record args =
  all_mask :: bool
  arg_mask_prob :: real
  gradient_accumulation_steps :: int
  train_batch_size :: int
  do_train :: bool
  max_seq_length :: int
  vocab_size :: int
  do_lower_case :: bool
  num_train_epochs :: real
  weighted :: bool
  weight :: real

text \<open>The \<open>dataset\<close> argument of \<open>main\<close>: a path (given by the lines of its file) or an
  object with \<open>data\<close> and \<open>entities\<close>.\<close>

datatype dataset = DatasetPath "string list" | DatasetObj "string list" "entity list option"

text \<open>What the caller's hook returns: \<open>None\<close>, a number, or a sequence of numbers.\<close>

datatype hook_result = HNone | HScalar real | HSeq "real list"

text \<open>
  The collaborators outside the repository: scikit-learn's vectorizer, the model and
  optimizer (\<open>train_epoch p c k\<close> is the exception raised, if any, while epoch \<open>k\<close> of
  configuration number \<open>c\<close> with masking \<open>p\<close> runs its batches) and the hook (\<open>hook c k\<close>
  is what it returns after that epoch).
\<close>

record env =
  count_vectorizer :: "int \<Rightarrow> string list \<Rightarrow> py_error + dict"
  train_epoch :: "real \<Rightarrow> nat \<Rightarrow> nat \<Rightarrow> py_error option"
  hook :: "nat \<Rightarrow> nat \<Rightarrow> hook_result"

record run_state =
  rs_args :: args
  rs_dataset :: dataset
  best_scores :: "real list"
  epochs_started :: nat
  hook_calls :: nat

text \<open>\<open>f[1]\<close> for a hook result \<open>f\<close>, and the comprehension \<open>[f[1] for f in scores]\<close>.\<close>

definition item_1 :: "hook_result \<Rightarrow> py_error + real" where
  "item_1 f =
     (case f of
        HNone \<Rightarrow> Inl TypeError
      | HScalar _ \<Rightarrow> Inl TypeError
      | HSeq xs \<Rightarrow> if 1 < length xs then Inr (xs ! 1) else Inl IndexError)"

fun items_1 :: "hook_result list \<Rightarrow> py_error + real list" where
  "items_1 [] = Inr []"
| "items_1 (f # fs) =
     (case item_1 f of
        Inl e \<Rightarrow> Inl e
      | Inr x \<Rightarrow> (case items_1 fs of Inl e \<Rightarrow> Inl e | Inr xs \<Rightarrow> Inr (x # xs)))"

text \<open>\<open>max(xs)\<close>: \<open>ValueError\<close> on an empty list.\<close>

definition py_max :: "real list \<Rightarrow> py_error + real" where
  "py_max xs = (case xs of [] \<Rightarrow> Inl ValueError | x # rest \<Rightarrow> Inr (foldl max x rest))"

text \<open>The epoch loop: \<open>n\<close> epochs remain, \<open>k\<close> is the next one.\<close>

fun run_epochs :: "env \<Rightarrow> real \<Rightarrow> nat \<Rightarrow> nat \<Rightarrow> nat \<Rightarrow> hook_result list \<Rightarrow> run_state
    \<Rightarrow> (py_error + hook_result list) \<times> run_state" where
  "run_epochs ev p c k 0 scores st = (Inr scores, st)"
| "run_epochs ev p c k (Suc n) scores st =
     (let st1 = st\<lparr>epochs_started := epochs_started st + 1\<rparr> in
      case train_epoch ev p c k of
        Some e \<Rightarrow> (Inl e, st1)
      | None \<Rightarrow>
          run_epochs ev p c (Suc k) n (scores @ [hook ev c k])
            (st1\<lparr>hook_calls := hook_calls st1 + 1\<rparr>))"

text \<open>The body of \<open>for p in probs\<close> in \<open>main\<close> (one process, no fp16): the raised
  exception, if any, and the state reached.\<close>

definition run_config :: "env \<Rightarrow> nat \<Rightarrow> real \<Rightarrow> run_state \<Rightarrow> py_error option \<times> run_state" where
  "run_config ev c p st =
     (let a = rs_args st in
      if gradient_accumulation_steps a < 1 then (Some ValueError, st)
      else let a1 = a\<lparr>train_batch_size := train_batch_size a div gradient_accumulation_steps a\<rparr>;
               st1 = st\<lparr>rs_args := a1\<rparr> in
      if \<not> do_train a1 then (Some ValueError, st1)
      else case MyDataset_init (case rs_dataset st1 of
                                  DatasetPath ls \<Rightarrow> CorpusPath ls
                                | DatasetObj docs _ \<Rightarrow> CorpusList docs) (max_seq_length a1) of
        Inl e \<Rightarrow> (Some e, st1)
      | Inr train_dataset \<Rightarrow>
      if train_batch_size a1 = 0 then (Some ZeroDivisionError, st1)
      else case Tokenizer_init (count_vectorizer ev) (all_docs train_dataset) (vocab_size a1)
                  (do_lower_case a1) of
        Inl e \<Rightarrow> (Some e, st1)
      | Inr tk \<Rightarrow>
      let ds1 = build_vocab train_dataset tk in
      case (if weighted a1
            then (case rs_dataset st1 of
                    DatasetPath _ \<Rightarrow> Inl AttributeError
                  | DatasetObj docs ents \<Rightarrow>
                      (case set_entities_weight ds1 ents (weight a1) of
                         Inl e \<Rightarrow> Inl e
                       | Inr (ds2, ents') \<Rightarrow> Inr (ds2, DatasetObj docs ents')))
            else (case set_entities_weight ds1 None 2 of
                    Inl e \<Rightarrow> Inl e
                  | Inr (ds2, _) \<Rightarrow> Inr (ds2, rs_dataset st1))) of
        Inl e \<Rightarrow> (Some e, st1)
      | Inr (ds2, dataset') \<Rightarrow>
      let st2 = st1\<lparr>rs_dataset := dataset'\<rparr> in
      case run_epochs ev p c 0 (nat \<lfloor>num_train_epochs a1\<rfloor>) [] st2 of
        (Inl e, st3) \<Rightarrow> (Some e, st3)
      | (Inr scores, st3) \<Rightarrow>
          (case items_1 scores of
             Inl e \<Rightarrow> (Some e, st3)
           | Inr xs \<Rightarrow>
               (case py_max xs of
                  Inl e \<Rightarrow> (Some e, st3)
                | Inr best \<Rightarrow> (None, st3\<lparr>best_scores := best_scores st3 @ [best]\<rparr>))))"

fun sweep :: "env \<Rightarrow> nat \<Rightarrow> real list \<Rightarrow> run_state \<Rightarrow> py_error option \<times> run_state" where
  "sweep ev c [] st = (None, st)"
| "sweep ev c (p # ps) st =
     (case run_config ev c p st of
        (Some e, st') \<Rightarrow> (Some e, st')
      | (None, st') \<Rightarrow> sweep ev (Suc c) ps st')"

definition probs_of :: "args \<Rightarrow> real list" where
  "probs_of a = (if all_mask a then [- 1, 0.25, 0.5, 0.75, 1] else [arg_mask_prob a])"

definition main :: "env \<Rightarrow> dataset \<Rightarrow> args \<Rightarrow> py_error option \<times> run_state" where
  "main ev ds a =
     sweep ev 0 (probs_of a)
       \<lparr>rs_args = a, rs_dataset = ds, best_scores = [], epochs_started = 0, hook_calls = 0\<rparr>"

section \<open>A small corpus\<close>

text \<open>
  The corpus \<open>["cat sat", "cat sat"]\<close>: both tokens occur in two documents, so
  \<open>CountVectorizer(min_df=2)\<close> keeps both and numbers them alphabetically; scikit-learn
  rejects a \<open>max_features\<close> that is not positive with a \<open>ValueError\<close>. The function below
  gives the vectorizer's result on this corpus for \<open>max_features \<ge> 2\<close> and for
  \<open>max_features \<le> 0\<close>, where it is used; with \<open>max_features = 1\<close> the real vectorizer
  keeps one term only.
\<close>

definition cat_sat_vectorizer :: "int \<Rightarrow> string list \<Rightarrow> py_error + dict" where
  "cat_sat_vectorizer max_features docs =
     (if max_features \<le> 0 then Inl ValueError else Inr [(''cat'', 0), (''sat'', 1)])"

definition cat_sat_tokenizer :: tokenizer where
  "cat_sat_tokenizer =
     \<lparr>doc_len = 2, lower_case = True,
      vocab = [(''cat'', 0), (''sat'', 1), (''[UNK]'', 2), (''[MASK]'', 3)],
      ids_to_tokens = [(0, ''cat''), (1, ''sat''), (2, ''[UNK]''), (3, ''[MASK]'')]\<rparr>"

definition cat_sat_dataset :: MyDataset where
  "cat_sat_dataset =
     \<lparr>ds_tokenizer = Some cat_sat_tokenizer, ds_vocab = Some (vocab cat_sat_tokenizer),
      seq_len = 5, corpus_lines = 0, sample_counter = 0,
      all_docs = [''cat sat'', ''cat sat''], num_docs = 2, ent_weights = []\<rparr>"

text \<open>The arguments of a run over that corpus: one configuration, two epochs.\<close>

definition cat_sat_args :: args where
  "cat_sat_args =
     \<lparr>all_mask = False, arg_mask_prob = 1, gradient_accumulation_steps = 1,
      train_batch_size = 32, do_train = True, max_seq_length = 5, vocab_size = 4,
      do_lower_case = True, num_train_epochs = 2, weighted = False, weight = 2\<rparr>"

text \<open>Collaborators whose epochs complete; the hook returns what \<open>h\<close> says.\<close>

definition cat_sat_env :: "(nat \<Rightarrow> nat \<Rightarrow> hook_result) \<Rightarrow> env" where
  "cat_sat_env h =
     \<lparr>count_vectorizer = cat_sat_vectorizer, train_epoch = (\<lambda>p c k. None), hook = h\<rparr>"

section \<open>Which positions the draws select\<close>

text \<open>Position \<open>i\<close> is masked when it is the index \<open>randint\<close> returned (single-token
  mode) or when the \<open>i\<close>-th value of \<open>random()\<close> is below \<open>mask_prob\<close>.\<close>

definition masked_at :: "real \<Rightarrow> rng \<Rightarrow> nat \<Rightarrow> bool" where
  "masked_at mask_prob r i \<longleftrightarrow>
     (if mask_prob = - 1 then i = randint_value r else random_values r i < mask_prob)"

text \<open>The id \<open>convert_tokens_to_ids\<close> and the probabilistic branch give a token: its own,
  or \<open>u\<close>, the id of \<open>[UNK]\<close>, when the vocabulary lacks it.\<close>

definition label_of :: "dict \<Rightarrow> int \<Rightarrow> string \<Rightarrow> int" where
  "label_of voc u t = (case map_of voc t of Some v \<Rightarrow> v | None \<Rightarrow> u)"

section \<open>From corpus to sample\<close>

text \<open>The steps \<open>main\<close> takes before the loader asks for a sample: load the corpus,
  build the tokenizer over its documents, attach it; then \<open>__getitem__\<close>.\<close>

definition provide_sample ::
  "(int \<Rightarrow> string list \<Rightarrow> py_error + dict) \<Rightarrow> corpus \<Rightarrow> int \<Rightarrow> int \<Rightarrow> real \<Rightarrow> rng \<Rightarrow> nat
     \<Rightarrow> py_error + MyDataset \<times> InputFeatures" where
  "provide_sample cvz c sl vs mask_prob r item =
     (case MyDataset_init c sl of
        Inl e \<Rightarrow> Inl e
      | Inr ds \<Rightarrow>
          (case Tokenizer_init cvz (all_docs ds) vs True of
             Inl e \<Rightarrow> Inl e
           | Inr tk \<Rightarrow> getitem mask_prob r (build_vocab ds tk) item))"

text \<open>
  Modelled from the spec: scikit-learn's \<open>CountVectorizer\<close> is not among the repository's
  files. The specification's vocabulary builder "fails with \<open>ConfigurationError\<close> if
  \<open>V < 2\<close>", which for \<open>max_features = V - 2\<close> is a negative \<open>max_features\<close>; the error is
  Python's \<open>ValueError\<close>.
\<close>

definition rejects_negative_max_features ::
  "(int \<Rightarrow> string list \<Rightarrow> py_error + dict) \<Rightarrow> bool" where
  "rejects_negative_max_features cvz \<longleftrightarrow>
     (\<forall>max_features docs. max_features < 0 \<longrightarrow> cvz max_features docs = Inl ValueError)"

section \<open>The corpus of the scenario\<close>

text \<open>
  The corpus \<open>["the cat sat", "", "the dog ran", ""]\<close>. Only \<open>the\<close> occurs in two
  documents, so \<open>CountVectorizer(min_df=2)\<close> keeps that one term, with id 0.
\<close>

definition scenario_corpus :: "string list" where
  "scenario_corpus = [''the cat sat'', '''', ''the dog ran'', '''']"

definition the_vectorizer :: "int \<Rightarrow> string list \<Rightarrow> py_error + dict" where
  "the_vectorizer max_features docs =
     (if max_features \<le> 0 then Inl ValueError else Inr [(''the'', 0)])"

text \<open>
  A corpus in which \<open>the\<close> does not get the id 0: in \<open>["the cat sat", "an the", "an"]\<close>
  the terms \<open>an\<close> and \<open>the\<close> occur in two documents each and are numbered 0 and 1
  (for \<open>max_features \<ge> 2\<close>, where the function below is used).
\<close>

definition an_the_vectorizer :: "int \<Rightarrow> string list \<Rightarrow> py_error + dict" where
  "an_the_vectorizer max_features docs =
     (if max_features \<le> 0 then Inl ValueError else Inr [(''an'', 0), (''the'', 1)])"

definition an_the_tokenizer :: tokenizer where
  "an_the_tokenizer =
     \<lparr>doc_len = 3, lower_case = True,
      vocab = [(''an'', 0), (''the'', 1), (''[UNK]'', 2), (''[MASK]'', 3)],
      ids_to_tokens = [(0, ''an''), (1, ''the''), (2, ''[UNK]''), (3, ''[MASK]'')]\<rparr>"

definition an_the_dataset :: MyDataset where
  "an_the_dataset =
     \<lparr>ds_tokenizer = Some an_the_tokenizer, ds_vocab = Some (vocab an_the_tokenizer),
      seq_len = 5, corpus_lines = 0, sample_counter = 0,
      all_docs = [''the cat sat'', ''an the'', ''an''], num_docs = 3, ent_weights = []\<rparr>"



text \<open>The tokenizer and dataset \<open>main\<close> builds over the scenario's corpus, given as a
  list.\<close>

definition scenario_tokenizer :: tokenizer where
  "scenario_tokenizer =
     \<lparr>doc_len = 4, lower_case = True,
      vocab = [(''the'', 0), (''[UNK]'', 1), (''[MASK]'', 2)],
      ids_to_tokens = [(0, ''the''), (1, ''[UNK]''), (2, ''[MASK]'')]\<rparr>"

definition scenario_dataset :: MyDataset where
  "scenario_dataset =
     \<lparr>ds_tokenizer = Some scenario_tokenizer, ds_vocab = Some (vocab scenario_tokenizer),
      seq_len = 5, corpus_lines = 0, sample_counter = 0,
      all_docs = scenario_corpus, num_docs = 4, ent_weights = []\<rparr>"

section \<open>Vocabulary facts\<close>

lemma update_fresh: "k \<notin> set (map fst al) \<Longrightarrow> AList.update k v al = al @ [(k, v)]"
  by (induction al) auto

lemma Tokenizer_init_vocab:
  assumes "cvz (V - 2) docs = Inr cv"
    and "''[UNK]'' \<notin> set (map fst cv)" and "''[MASK]'' \<notin> set (map fst cv)"
    and "Tokenizer_init cvz docs V lc = Inr tk"
  shows "vocab tk = cv @ [(''[UNK]'', int (length cv)), (''[MASK]'', int (length cv) + 1)]"
proof -
  have u: "AList.update ''[UNK]'' (int (length cv)) cv = cv @ [(''[UNK]'', int (length cv))]"
    using assms(2) by (rule update_fresh)
  have m: "AList.update ''[MASK]'' v (cv @ [(''[UNK]'', int (length cv))])
             = cv @ [(''[UNK]'', int (length cv))] @ [(''[MASK]'', v)]" for v
    using assms(3) by (simp add: update_fresh)
  from assms(1,4) show ?thesis
    by (auto simp: Tokenizer_init_def Let_def u m)
qed


lemma cat_sat_tokenizer_built:
  "Tokenizer_init cat_sat_vectorizer [''cat sat'', ''cat sat''] 4 True = Inr cat_sat_tokenizer"
  by (simp add: Tokenizer_init_def cat_sat_vectorizer_def cat_sat_tokenizer_def
      dict_of_items_def)

lemma cat_sat_dataset_built:
  "map_sum id (\<lambda>ds. build_vocab ds cat_sat_tokenizer)
     (MyDataset_init (CorpusList [''cat sat'', ''cat sat'']) 5) = Inr cat_sat_dataset"
  by (simp add: MyDataset_init_def load_docs_def build_vocab_def cat_sat_dataset_def)

section \<open>Corpus loading\<close>

text \<open>
  C5. A file whose last line is not blank should still yield its last document. The
  file with the single line \<open>hello\<close> has no blank line at all: the loop leaves
  \<open>all_docs\<close> empty, and the test after the loop reads \<open>all_docs[-1]\<close> and raises
  \<open>IndexError\<close> instead of appending the document.
\<close>

theorem load_docs_single_line_raises:
  "load_docs (CorpusPath [''hello'']) = Inl IndexError"
  by (simp add: load_docs_def strip_def is_space_def Let_def)

text \<open>The same test also drops a last document equal to the one before it.\<close>

lemma load_docs_repeated_last_dropped:
  "load_docs (CorpusPath [''a'', '''', ''a'']) = Inr ([''a''], 2)"
  by (simp add: load_docs_def strip_def is_space_def Let_def)

text \<open>With a blank line before it, a different last block is appended.\<close>

lemma load_docs_last_block_appended:
  "load_docs (CorpusPath [''a'', '''', ''b'']) = Inr ([''a'', ''b''], 2)"
  by (simp add: load_docs_def strip_def is_space_def Let_def)

section \<open>Single-token masking\<close>

text \<open>
  C1. In single-token mode the label at the masked index should be the id of the
  original token. With \<open>cat\<close> (id 0) masked in \<open>["cat", "sat"]\<close>, the label computed is
  3, the id of \<open>[MASK]\<close>: the labels are read from the list after the token was replaced.
\<close>

theorem random_word_single_label_is_mask_id:
  "random_word (- 1) \<lparr>randint_value = 0, random_values = (\<lambda>_. 0)\<rparr> [''cat'', ''sat'']
       cat_sat_tokenizer
     = Inr ([''[MASK]'', ''sat''], [3, - 1])
   \<and> map_of (vocab cat_sat_tokenizer) ''cat'' = Some 0"
  by (simp add: random_word_def cat_sat_tokenizer_def dict_index_def)

text \<open>The probabilistic branch, masking the same position, labels it with the original
  id 0.\<close>

lemma random_word_prob_label_is_original_id:
  "random_word (1 / 2) \<lparr>randint_value = 0, random_values = (\<lambda>i. if i = 0 then 0 else 1)\<rparr>
       [''cat'', ''sat''] cat_sat_tokenizer
     = Inr ([''[MASK]'', ''sat''], [0, - 1])"
  by (simp add: random_word_def cat_sat_tokenizer_def dict_index_def)

section \<open>Entity weights and the caller's records\<close>

text \<open>
  C9. Building the weight vector should leave the caller's entity records unchanged.
  For one record with \<open>FIELD = {cat}\<close> and \<open>TEC = {sat}\<close> the call returns the weights
  and leaves the record with \<open>FIELD = {cat, sat}\<close>.
\<close>

theorem set_entities_weight_changes_FIELD:
  "set_entities_weight cat_sat_dataset
       (Some [\<lparr>FIELD = [''cat''], TEC = [''sat''], MISC = []\<rparr>]) 3
     = Inr (cat_sat_dataset\<lparr>ent_weights := [3, 3, 1, 1]\<rparr>,
            Some [\<lparr>FIELD = [''cat'', ''sat''], TEC = [''sat''], MISC = []\<rparr>])"
  by (simp add: set_entities_weight_def cat_sat_dataset_def cat_sat_tokenizer_def
      set_update_def str_lower_def lower_char_def tokenize_def simple_preprocess_def
      is_alphabetic_def dict_index_def list_assign_def Let_def)

section \<open>Best scores of a sweep\<close>

text \<open>
  C4. After a configuration's epochs the best score appended should be the maximum of
  the hook's per-epoch scalar scores. With a hook returning the scalar \<open>1/2\<close> (and with
  one returning \<open>None\<close>, as both hooks of the repository do) the two epochs run, the hook
  is called twice, and \<open>f[1]\<close> raises \<open>TypeError\<close>: nothing is appended.
\<close>

theorem main_scalar_hook_raises:
  "main (cat_sat_env (\<lambda>c k. HScalar (1 / 2))) (DatasetObj [''cat sat'', ''cat sat''] None)
       cat_sat_args
     = (Some TypeError,
        \<lparr>rs_args = cat_sat_args, rs_dataset = DatasetObj [''cat sat'', ''cat sat''] None,
         best_scores = [], epochs_started = 2, hook_calls = 2\<rparr>)
   \<and> main (cat_sat_env (\<lambda>c k. HNone)) (DatasetObj [''cat sat'', ''cat sat''] None)
       cat_sat_args
     = (Some TypeError,
        \<lparr>rs_args = cat_sat_args, rs_dataset = DatasetObj [''cat sat'', ''cat sat''] None,
         best_scores = [], epochs_started = 2, hook_calls = 2\<rparr>)"
  by (simp add: main_def probs_of_def cat_sat_args_def cat_sat_env_def run_config_def
      MyDataset_init_def load_docs_def Tokenizer_init_def cat_sat_vectorizer_def
      build_vocab_def set_entities_weight_def dict_of_items_def item_1_def Let_def
      numeral_2_eq_2)

text \<open>What \<open>main\<close> computes when every hook result is a sequence: the maximum of the
  entries at index 1.\<close>

lemma main_sequence_hook:
  "main (cat_sat_env (\<lambda>c k. HSeq [0, if k = 0 then 3 / 10 else 7 / 10]))
       (DatasetObj [''cat sat'', ''cat sat''] None) cat_sat_args
     = (None,
        \<lparr>rs_args = cat_sat_args, rs_dataset = DatasetObj [''cat sat'', ''cat sat''] None,
         best_scores = [7 / 10], epochs_started = 2, hook_calls = 2\<rparr>)"
  by (simp add: main_def probs_of_def cat_sat_args_def cat_sat_env_def run_config_def
      MyDataset_init_def load_docs_def Tokenizer_init_def cat_sat_vectorizer_def
      build_vocab_def set_entities_weight_def dict_of_items_def item_1_def py_max_def Let_def
      numeral_2_eq_2)


section \<open>Facts about a constructed vocabulary\<close>

lemma map_of_foldl_update:
  "map_of (foldl (\<lambda>d (k, v). AList.update k v d) d xs) = map_of (rev xs @ d)"
proof (induction xs arbitrary: d)
  case Nil
  then show ?case by simp
next
  case (Cons x xs)
  obtain k v where x: "x = (k, v)" by (cases x)
  show ?case
    by (simp add: Cons.IH x update_conv' map_add_upd_left fun_eq_iff map_add_def split: option.splits)
qed

lemma map_of_dict_of_items: "map_of (dict_of_items xs) = map_of (rev xs)"
  by (simp add: dict_of_items_def map_of_foldl_update)

lemma vocabulary_ok_ids:
  assumes "vocabulary_ok cv"
  shows "set (map snd cv) = {0..<int (length cv)}"
proof -
  have sub: "set (map snd cv) \<subseteq> {0..<int (length cv)}"
    using assms by (auto simp: vocabulary_ok_def)
  have "card (set (map snd cv)) = length cv"
    using assms distinct_card[of "map snd cv"] by (simp add: vocabulary_ok_def)
  then have "card (set (map snd cv)) = card {0..<int (length cv)}" by simp
  with sub show ?thesis by (simp add: card_subset_eq)
qed

lemma Tokenizer_init_Inr:
  assumes "Tokenizer_init cvz docs V lc = Inr tk"
  obtains cv where "cvz (V - 2) docs = Inr cv"
  using assms by (auto simp: Tokenizer_init_def split: sum.splits)

lemma Tokenizer_init_ids_to_tokens:
  assumes "Tokenizer_init cvz docs V lc = Inr tk"
  shows "map_of (ids_to_tokens tk) = map_of (rev (map (\<lambda>(tok, ids). (ids, tok)) (vocab tk)))"
  using assms
  by (auto simp: Tokenizer_init_def Let_def map_of_dict_of_items split: sum.splits)

lemma Tokenizer_init_mask_id:
  assumes "Tokenizer_init cvz docs V lc = Inr tk"
  shows "\<exists>v. map_of (vocab tk) ''[MASK]'' = Some v \<and> 1 \<le> v"
proof -
  from assms obtain cv where cv: "cvz (V - 2) docs = Inr cv" by (rule Tokenizer_init_Inr)
  let ?v1 = "AList.update ''[UNK]'' (int (length cv)) cv"
  have "?v1 \<noteq> []" by simp
  then have "1 \<le> int (length ?v1)" by (cases ?v1) auto
  moreover have "vocab tk = AList.update ''[MASK]'' (int (length ?v1)) ?v1"
    using assms cv by (auto simp: Tokenizer_init_def Let_def)
  ultimately show ?thesis by (simp add: update_conv')
qed

lemma Tokenizer_init_unk_id:
  assumes "Tokenizer_init cvz docs V lc = Inr tk"
  shows "\<exists>v. map_of (vocab tk) ''[UNK]'' = Some v"
proof -
  from assms obtain cv where cv: "cvz (V - 2) docs = Inr cv" by (rule Tokenizer_init_Inr)
  let ?v1 = "AList.update ''[UNK]'' (int (length cv)) cv"
  have "vocab tk = AList.update ''[MASK]'' (int (length ?v1)) ?v1"
    using assms cv by (auto simp: Tokenizer_init_def Let_def)
  then show ?thesis by (simp add: update_conv')
qed

lemma vocab_built:
  assumes "cvz (V - 2) docs = Inr cv" and "vocabulary_ok cv"
    and "Tokenizer_init cvz docs V lc = Inr tk"
  shows "vocab tk = cv @ [(''[UNK]'', int (length cv)), (''[MASK]'', int (length cv) + 1)]"
  using assms by (intro Tokenizer_init_vocab[of cvz V docs cv lc tk]) (auto simp: vocabulary_ok_def)

lemma vocab_built_distinct:
  assumes "cvz (V - 2) docs = Inr cv" and "vocabulary_ok cv"
    and "Tokenizer_init cvz docs V lc = Inr tk"
  shows "distinct (map fst (vocab tk))"
  using assms(2) by (auto simp: vocab_built[OF assms] vocabulary_ok_def)

lemma vocab_built_ids:
  assumes "cvz (V - 2) docs = Inr cv" and "vocabulary_ok cv"
    and "Tokenizer_init cvz docs V lc = Inr tk"
  shows "set (map snd (vocab tk)) = {0..<int (length (vocab tk))}"
proof -
  have "set (map snd (vocab tk)) = {0..<int (length cv)} \<union> {int (length cv), int (length cv) + 1}"
    using vocabulary_ok_ids[OF assms(2)] by (simp add: vocab_built[OF assms] Un_commute)
  also have "\<dots> = {0..<int (length cv) + 2}" by auto
  also have "\<dots> = {0..<int (length (vocab tk))}"
    by (simp add: vocab_built[OF assms] add.commute)
  finally show ?thesis .
qed

lemma roundtrip_one:
  assumes "distinct (map fst voc)" and "i \<in> set (map snd voc)"
  shows "\<exists>t. map_of (rev (map (\<lambda>(tok, ids). (ids, tok)) voc)) i = Some t \<and> map_of voc t = Some i"
proof -
  let ?items = "rev (map (\<lambda>(tok, ids). (ids, tok)) voc)"
  from assms(2) have "i \<in> fst ` set ?items" by force
  then obtain t where t: "map_of ?items i = Some t"
    by (metis domD dom_map_of_conv_image_fst)
  then have "(i, t) \<in> set ?items" by (rule map_of_SomeD)
  then have "(t, i) \<in> set voc" by auto
  with assms(1) have "map_of voc t = Some i" by simp
  with t show ?thesis by blast
qed

lemma roundtrip_list:
  assumes d: "distinct (map fst (vocab tk))"
    and i2t: "map_of (ids_to_tokens tk) = map_of (rev (map (\<lambda>(tok, ids). (ids, tok)) (vocab tk)))"
    and "\<forall>i \<in> set ids. i \<in> set (map snd (vocab tk))"
  shows "\<exists>toks. convert_ids_to_tokens tk ids = Inr toks \<and> convert_tokens_to_ids tk toks = Inr ids"
  using assms(3)
proof (induction ids)
  case Nil
  then show ?case by simp
next
  case (Cons i ids)
  then obtain toks where toks: "convert_ids_to_tokens tk ids = Inr toks"
      "convert_tokens_to_ids tk toks = Inr ids" by auto
  from Cons.prems have "i \<in> set (map snd (vocab tk))" by simp
  from roundtrip_one[OF d this] obtain t where
    t: "map_of (ids_to_tokens tk) i = Some t" "map_of (vocab tk) t = Some i"
    by (auto simp: i2t)
  show ?case using toks t by (simp add: dict_index_def)
qed


section \<open>Sentinel ids\<close>

text \<open>
  C7. When the vectorizer's vocabulary numbers its \<open>n\<close> ordinary tokens \<open>0..n-1\<close>, the
  constructed vocabulary is that dict followed by \<open>[UNK]\<close> with id \<open>n\<close> and \<open>[MASK]\<close> with
  id \<open>n+1\<close>: the sentinels are assigned last and hold the two highest ids, every other
  token having an id below \<open>n\<close>; with \<open>n = V - 2\<close> these ids are \<open>V-2\<close> and \<open>V-1\<close>.
\<close>

theorem Tokenizer_sentinel_ids:
  assumes "cvz (V - 2) docs = Inr cv" and "vocabulary_ok cv"
    and "Tokenizer_init cvz docs V lc = Inr tk"
  shows "vocab tk = cv @ [(''[UNK]'', int (length cv)), (''[MASK]'', int (length cv) + 1)]
    \<and> map_of (vocab tk) ''[UNK]'' = Some (int (length cv))
    \<and> map_of (vocab tk) ''[MASK]'' = Some (int (length cv) + 1)
    \<and> (\<forall>t i. map_of (vocab tk) t = Some i \<and> t \<noteq> ''[UNK]'' \<and> t \<noteq> ''[MASK]''
          \<longrightarrow> 0 \<le> i \<and> i < int (length cv))
    \<and> (int (length cv) = V - 2
          \<longrightarrow> map_of (vocab tk) ''[UNK]'' = Some (V - 2)
            \<and> map_of (vocab tk) ''[MASK]'' = Some (V - 1))"
proof -
  have v: "vocab tk = cv @ [(''[UNK]'', int (length cv)), (''[MASK]'', int (length cv) + 1)]"
    by (rule vocab_built[OF assms])
  have nu: "map_of cv ''[UNK]'' = None" and nm: "map_of cv ''[MASK]'' = None"
    using assms(2) by (auto simp: vocabulary_ok_def map_of_eq_None_iff)
  have u: "map_of (vocab tk) ''[UNK]'' = Some (int (length cv))"
    by (simp add: v map_add_def nu)
  have m: "map_of (vocab tk) ''[MASK]'' = Some (int (length cv) + 1)"
    by (simp add: v map_add_def nm)
  have others: "0 \<le> i \<and> i < int (length cv)"
    if "map_of (vocab tk) t = Some i" "t \<noteq> ''[UNK]''" "t \<noteq> ''[MASK]''" for t i
  proof -
    from that have "map_of cv t = Some i"
      by (auto simp: v map_add_def split: option.splits if_splits)
    then have "i \<in> set (map snd cv)" by (force dest: map_of_SomeD)
    with assms(2) show ?thesis by (auto simp: vocabulary_ok_def)
  qed
  have full: "map_of (vocab tk) ''[UNK]'' = Some (V - 2)
      \<and> map_of (vocab tk) ''[MASK]'' = Some (V - 1)" if "int (length cv) = V - 2"
    using u m that by simp
  show ?thesis
    using v u m others full by blast
qed

theorem Tokenizer_sentinel_ids_witness:
  "cat_sat_vectorizer (4 - 2) [''cat sat'', ''cat sat''] = Inr [(''cat'', 0), (''sat'', 1)]
   \<and> vocabulary_ok [(''cat'', 0), (''sat'', 1)]
   \<and> Tokenizer_init cat_sat_vectorizer [''cat sat'', ''cat sat''] 4 True = Inr cat_sat_tokenizer
   \<and> vocab cat_sat_tokenizer = [(''cat'', 0), (''sat'', 1), (''[UNK]'', 2), (''[MASK]'', 3)]
   \<and> map_of (vocab cat_sat_tokenizer) ''[UNK]'' = Some (4 - 2)
   \<and> map_of (vocab cat_sat_tokenizer) ''[MASK]'' = Some (4 - 1)"
proof -
  have h1: "cat_sat_vectorizer (4 - 2) [''cat sat'', ''cat sat''] = Inr [(''cat'', 0), (''sat'', 1)]"
    by (simp add: cat_sat_vectorizer_def)
  have h2: "vocabulary_ok [(''cat'', 0), (''sat'', 1)]"
    by (simp add: vocabulary_ok_def)
  have h3: "Tokenizer_init cat_sat_vectorizer [''cat sat'', ''cat sat''] 4 True
              = Inr cat_sat_tokenizer"
    by (rule cat_sat_tokenizer_built)
  show ?thesis
    using h1 h2 h3 Tokenizer_sentinel_ids[OF h1 h2 h3] by simp
qed

section \<open>Ids to tokens and back\<close>

text \<open>
  C8. For a tokenizer built over a vocabulary numbered \<open>0..n-1\<close>, every id sequence drawn
  from the valid range \<open>0 \<le> i < len(vocab)\<close> is converted to tokens without error, and
  converting those tokens back gives the original sequence.
\<close>

theorem ids_tokens_roundtrip:
  assumes "cvz (V - 2) docs = Inr cv" and "vocabulary_ok cv"
    and "Tokenizer_init cvz docs V lc = Inr tk"
    and "\<forall>i \<in> set ids. 0 \<le> i \<and> i < int (length (vocab tk))"
  shows "\<exists>toks. convert_ids_to_tokens tk ids = Inr toks
           \<and> convert_tokens_to_ids tk toks = Inr ids"
proof (rule roundtrip_list)
  show "distinct (map fst (vocab tk))"
    by (rule vocab_built_distinct[OF assms(1-3)])
  show "map_of (ids_to_tokens tk)
          = map_of (rev (map (\<lambda>(tok, ids). (ids, tok)) (vocab tk)))"
    by (rule Tokenizer_init_ids_to_tokens[OF assms(3)])
  show "\<forall>i \<in> set ids. i \<in> set (map snd (vocab tk))"
    using assms(4) vocab_built_ids[OF assms(1-3)] by auto
qed

theorem ids_tokens_roundtrip_witness:
  "cat_sat_vectorizer (4 - 2) [''cat sat'', ''cat sat''] = Inr [(''cat'', 0), (''sat'', 1)]
   \<and> vocabulary_ok [(''cat'', 0), (''sat'', 1)]
   \<and> Tokenizer_init cat_sat_vectorizer [''cat sat'', ''cat sat''] 4 True = Inr cat_sat_tokenizer
   \<and> list_all (\<lambda>i. 0 \<le> i \<and> i < int (length (vocab cat_sat_tokenizer))) [3, 0, 2, 1]
   \<and> (\<exists>toks. convert_ids_to_tokens cat_sat_tokenizer [3, 0, 2, 1] = Inr toks
           \<and> convert_tokens_to_ids cat_sat_tokenizer toks = Inr [3, 0, 2, 1])"
proof -
  have h1: "cat_sat_vectorizer (4 - 2) [''cat sat'', ''cat sat''] = Inr [(''cat'', 0), (''sat'', 1)]"
    by (simp add: cat_sat_vectorizer_def)
  have h2: "vocabulary_ok [(''cat'', 0), (''sat'', 1)]"
    by (simp add: vocabulary_ok_def)
  have h3: "Tokenizer_init cat_sat_vectorizer [''cat sat'', ''cat sat''] 4 True
              = Inr cat_sat_tokenizer"
    by (rule cat_sat_tokenizer_built)
  have h4: "\<forall>i \<in> set [3, 0, 2, 1]. 0 \<le> i \<and> i < int (length (vocab cat_sat_tokenizer))"
    by (simp add: cat_sat_tokenizer_def)
  show ?thesis
    using h1 h2 h3 h4 ids_tokens_roundtrip[OF h1 h2 h3 h4] by simp
qed

text \<open>An id outside the range is a \<open>KeyError\<close>.\<close>

lemma convert_ids_to_tokens_out_of_range:
  "convert_ids_to_tokens cat_sat_tokenizer [4] = Inl KeyError"
  by (simp add: cat_sat_tokenizer_def dict_index_def)


section \<open>Facts about masking and padding\<close>

lemma zero_pad_eq:
  "zero_pad m (ids, msk, did, lbl) =
     (ids @ replicate (nat (m - int (length ids))) 0,
      msk @ replicate (nat (m - int (length ids))) 0,
      did @ replicate (nat (m - int (length ids))) 0,
      lbl @ replicate (nat (m - int (length ids))) (- 1))"
proof (induction m "(ids, msk, did, lbl)" arbitrary: ids msk did lbl rule: zero_pad.induct)
  case (1 m ids msk did lbl)
  show ?case
  proof (cases "int (length ids) < m")
    case True
    then have n: "nat (m - int (length ids)) = Suc (nat (m - int (length (ids @ [0]))))"
      by simp
    show ?thesis
      using True "1.hyps"[OF True]
      by (subst zero_pad.simps) (simp add: n del: zero_pad.simps)
  next
    case False
    then show ?thesis by simp
  qed
qed

lemma single_labels_after:
  "m < k \<Longrightarrow> single_labels voc m k toks = Inr (replicate (length toks) (- 1))"
  by (induction toks arbitrary: k) auto

lemma single_labels_at:
  assumes "k \<le> m" and "m < k + length toks" and "map_of voc (toks ! (m - k)) = Some v"
  shows "single_labels voc m k toks = Inr ((replicate (length toks) (- 1))[m - k := v])"
  using assms
proof (induction toks arbitrary: k)
  case Nil
  then show ?case by simp
next
  case (Cons t ts)
  show ?case
  proof (cases "k = m")
    case True
    with Cons.prems show ?thesis
      by (simp add: dict_index_def single_labels_after)
  next
    case False
    with Cons.prems have k: "Suc k \<le> m" "m < Suc k + length ts" by auto
    from False Cons.prems have "m - k = Suc (m - Suc k)" by auto
    with Cons.prems have "map_of voc (ts ! (m - Suc k)) = Some v" by simp
    from Cons.IH[OF k this] False \<open>m - k = Suc (m - Suc k)\<close> show ?thesis by simp
  qed
qed

lemma single_labels_None:
  assumes "k \<le> m" and "m < k + length toks" and "map_of voc (toks ! (m - k)) = None"
  shows "single_labels voc m k toks = Inl KeyError"
  using assms
proof (induction toks arbitrary: k)
  case Nil
  then show ?case by simp
next
  case (Cons t ts)
  show ?case
  proof (cases "k = m")
    case True
    with Cons.prems show ?thesis by (simp add: dict_index_def)
  next
    case False
    with Cons.prems have k: "Suc k \<le> m" "m < Suc k + length ts" by auto
    from False Cons.prems have "m - k = Suc (m - Suc k)" by auto
    with Cons.prems have "map_of voc (ts ! (m - Suc k)) = None" by simp
    from Cons.IH[OF k this] False show ?thesis by simp
  qed
qed

lemma prob_mask_Inr:
  assumes "map_of voc ''[UNK]'' = Some u"
  shows "\<exists>ts ls. prob_mask p d voc k toks = Inr (ts, ls)
           \<and> length ts = length toks \<and> length ls = length toks
           \<and> (\<forall>j < length toks.
                 ts ! j = (if d (k + j) < p then ''[MASK]'' else toks ! j)
               \<and> ls ! j = (if d (k + j) < p then label_of voc u (toks ! j) else - 1))"
proof (induction toks arbitrary: k)
  case Nil
  then show ?case by simp
next
  case (Cons t toks)
  from Cons.IH[of "Suc k"] obtain ts ls where
    r: "prob_mask p d voc (Suc k) toks = Inr (ts, ls)"
    and l: "length ts = length toks" "length ls = length toks"
    and n: "\<And>j. j < length toks \<Longrightarrow>
         ts ! j = (if d (Suc k + j) < p then ''[MASK]'' else toks ! j)
       \<and> ls ! j = (if d (Suc k + j) < p then label_of voc u (toks ! j) else - 1)"
    by blast
  show ?case
  proof (cases "d k < p")
    case True
    have "prob_mask p d voc k (t # toks) = Inr (''[MASK]'' # ts, label_of voc u t # ls)"
      using True r assms by (simp add: label_of_def dict_index_def split: option.splits)
    moreover have "\<forall>j < length (t # toks).
         (''[MASK]'' # ts) ! j = (if d (k + j) < p then ''[MASK]'' else (t # toks) ! j)
       \<and> (label_of voc u t # ls) ! j
           = (if d (k + j) < p then label_of voc u ((t # toks) ! j) else - 1)"
    proof (intro allI impI)
      fix j assume "j < length (t # toks)"
      then show "(''[MASK]'' # ts) ! j = (if d (k + j) < p then ''[MASK]'' else (t # toks) ! j)
       \<and> (label_of voc u t # ls) ! j
           = (if d (k + j) < p then label_of voc u ((t # toks) ! j) else - 1)"
        using True n by (cases j) auto
    qed
    ultimately show ?thesis using l by auto
  next
    case False
    have "prob_mask p d voc k (t # toks) = Inr (t # ts, (- 1) # ls)"
      using False r by simp
    moreover have "\<forall>j < length (t # toks).
         (t # ts) ! j = (if d (k + j) < p then ''[MASK]'' else (t # toks) ! j)
       \<and> ((- 1) # ls) ! j
           = (if d (k + j) < p then label_of voc u ((t # toks) ! j) else - 1)"
    proof (intro allI impI)
      fix j assume "j < length (t # toks)"
      then show "(t # ts) ! j = (if d (k + j) < p then ''[MASK]'' else (t # toks) ! j)
       \<and> ((- 1) # ls) ! j
           = (if d (k + j) < p then label_of voc u ((t # toks) ! j) else - 1)"
        using False n by (cases j) auto
    qed
    ultimately show ?thesis using l by auto
  qed
qed


lemma random_word_Inr:
  assumes unk: "map_of (vocab tk) ''[UNK]'' = Some u"
    and msk: "map_of (vocab tk) ''[MASK]'' = Some mv"
    and ok: "mask_prob = - 1 \<longrightarrow> randint_value r < length toks"
  shows "\<exists>ts ls. random_word mask_prob r toks tk = Inr (ts, ls)
           \<and> length ts = length toks \<and> length ls = length toks
           \<and> (\<forall>j < length toks.
                 ts ! j = (if masked_at mask_prob r j then ''[MASK]'' else toks ! j)
               \<and> ls ! j = (if masked_at mask_prob r j
                            then (if mask_prob = - 1 then mv
                                  else label_of (vocab tk) u (toks ! j))
                            else - 1))"
proof (cases "mask_prob = - 1")
  case True
  let ?m = "randint_value r"
  from True ok have m: "?m < length toks" by simp
  then have ne: "toks \<noteq> []" by auto
  let ?ts = "toks[?m := ''[MASK]'']"
  have "map_of (vocab tk) (?ts ! (?m - 0)) = Some mv" using m msk by simp
  from single_labels_at[of 0 ?m ?ts "vocab tk" mv, OF _ _ this] m
  have sl: "single_labels (vocab tk) ?m 0 ?ts = Inr ((replicate (length toks) (- 1))[?m := mv])"
    by simp
  have rw: "random_word (- 1) r toks tk
              = Inr (?ts, (replicate (length toks) (- 1))[?m := mv])"
    using m ne sl by (simp add: random_word_def Let_def)
  show ?thesis
    using True m by (auto simp: rw masked_at_def nth_list_update)
next
  case False
  from prob_mask_Inr[OF unk, of mask_prob "random_values r" 0 toks]
  show ?thesis using False by (auto simp: random_word_def masked_at_def)
qed

lemma random_word_single_fails:
  assumes "\<not> randint_value r < length toks"
  shows "\<exists>e. random_word (- 1) r toks tk = Inl e"
  using assms by (auto simp: random_word_def Let_def)

text \<open>Single-token mode on every input: one position is replaced, and its label is the
  id of \<open>[MASK]\<close>, all other labels are -1.\<close>

lemma random_word_single_general:
  assumes "map_of (vocab tk) ''[MASK]'' = Some mv" and "randint_value r < length toks"
  shows "random_word (- 1) r toks tk
           = Inr (toks[randint_value r := ''[MASK]''],
                  (replicate (length toks) (- 1))[randint_value r := mv])"
proof -
  let ?m = "randint_value r"
  let ?ts = "toks[?m := ''[MASK]'']"
  from assms(2) have ne: "toks \<noteq> []" by auto
  have "map_of (vocab tk) (?ts ! (?m - 0)) = Some mv" using assms by simp
  from single_labels_at[of 0 ?m ?ts "vocab tk" mv, OF _ _ this] assms(2)
  have "single_labels (vocab tk) ?m 0 ?ts = Inr ((replicate (length toks) (- 1))[?m := mv])"
    by simp
  with assms(2) ne show ?thesis by (simp add: random_word_def Let_def)
qed

lemma convert_tokens_to_ids_Inr:
  assumes "map_of (vocab tk) ''[UNK]'' = Some u"
  shows "convert_tokens_to_ids tk ts = Inr (map (label_of (vocab tk) u) ts)"
  using assms
  by (induction ts) (auto simp: label_of_def dict_index_def split: option.splits)

lemma slice_to_replicate:
  "slice_to m (replicate k x) = replicate (length (slice_to m (replicate k x))) x"
  by (simp add: slice_to_def)

lemma length_slice_to:
  "length (slice_to m xs) = (if 0 \<le> m then min (nat m) (length xs) else nat (int (length xs) + m))"
  by (auto simp: slice_to_def)

text \<open>The shape of every feature record: a prefix of \<open>q\<close> real positions and \<open>j\<close> padded
  ones.\<close>

lemma convert_example_to_features_prefix_pad:
  assumes rw: "random_word mask_prob r (doc_tok ex) tk = Inr (ts, ls)"
    and ct: "convert_tokens_to_ids tk ts = Inr ids"
    and len: "length ls = length ids"
  shows "\<exists>q j. q \<le> length ids
     \<and> (0 \<le> m \<longrightarrow> q = min (length ids) (nat m) \<and> j = nat m - length ids)
     \<and> convert_example_to_features mask_prob r ex m tk =
         Inr \<lparr>input_ids = take q ids @ replicate j 0,
              input_mask = replicate q 1 @ replicate j 0,
              doc_id = replicate q (ex_doc_id ex) @ replicate j 0,
              lm_label_ids = take q ls @ replicate j (- 1)\<rparr>"
proof (cases "int (length ids) > m")
  case True
  let ?q = "if 0 \<le> m then nat m else nat (int (length ids) + m)"
  have q: "?q \<le> length ids" using True by auto
  have j: "nat (m - int ?q) = 0" using True by auto
  have "convert_example_to_features mask_prob r ex m tk =
         Inr \<lparr>input_ids = take ?q ids @ replicate 0 0,
              input_mask = replicate ?q 1 @ replicate 0 0,
              doc_id = replicate ?q (ex_doc_id ex) @ replicate 0 0,
              lm_label_ids = take ?q ls @ replicate 0 (- 1)\<rparr>"
  proof (cases "0 \<le> m")
    case nonneg: True
    with True have "min (nat m) (length ids) = nat m" by auto
    with True nonneg len show ?thesis
      by (simp add: convert_example_to_features_def rw ct Let_def zero_pad_eq slice_to_def
          del: zero_pad.simps)
  next
    case neg: False
    then have "min (nat (int (length ids) + m)) (length ids) = nat (int (length ids) + m)"
      by auto
    with True neg len show ?thesis
      by (simp add: convert_example_to_features_def rw ct Let_def zero_pad_eq slice_to_def
          del: zero_pad.simps)
  qed
  moreover have "0 \<le> m \<longrightarrow> ?q = min (length ids) (nat m) \<and> (0::nat) = nat m - length ids"
    using True by auto
  ultimately show ?thesis using q by blast
next
  case False
  let ?j = "nat (m - int (length ids))"
  have "convert_example_to_features mask_prob r ex m tk =
         Inr \<lparr>input_ids = take (length ids) ids @ replicate ?j 0,
              input_mask = replicate (length ids) 1 @ replicate ?j 0,
              doc_id = replicate (length ids) (ex_doc_id ex) @ replicate ?j 0,
              lm_label_ids = take (length ids) ls @ replicate ?j (- 1)\<rparr>"
    using False len
    by (simp add: convert_example_to_features_def rw ct Let_def zero_pad_eq
        del: zero_pad.simps)
  moreover have "0 \<le> m \<longrightarrow> length ids = min (length ids) (nat m) \<and> ?j = nat m - length ids"
    using False by auto
  ultimately show ?thesis by blast
qed


lemma vocab_built_nonneg:
  assumes "cvz (V - 2) docs = Inr cv" and "vocabulary_ok cv"
    and "Tokenizer_init cvz docs V lc = Inr tk"
    and "map_of (vocab tk) t = Some v"
  shows "0 \<le> v"
proof -
  from assms(4) have "v \<in> set (map snd (vocab tk))" by (force dest: map_of_SomeD)
  with vocab_built_ids[OF assms(1-3)] show ?thesis by auto
qed

lemma label_of_nonneg:
  assumes "cvz (V - 2) docs = Inr cv" and "vocabulary_ok cv"
    and "Tokenizer_init cvz docs V lc = Inr tk"
    and "map_of (vocab tk) ''[UNK]'' = Some u"
  shows "0 \<le> label_of (vocab tk) u t"
  using vocab_built_nonneg[OF assms(1-3)] assms(4)
  by (auto simp: label_of_def split: option.splits)

section \<open>Feature encoding\<close>

text \<open>
  C3. For a tokenizer built over a vocabulary numbered \<open>0..n-1\<close>, a sequence length
  \<open>max_seq_length \<ge> 0\<close> and any example whose masking draws succeed (in single-token
  mode \<open>randint\<close> returns an index of the token list), \<open>convert_example_to_features\<close>
  returns a record whose four lists have length \<open>max_seq_length\<close>; a position from
  \<open>k = len(doc_tok)\<close> on holds 0, 0, 0 and -1; and a label differs from -1 exactly at the
  positions below \<open>k\<close> that the draws masked.
\<close>

theorem feature_lengths_padding_labels:
  assumes cv: "cvz (V - 2) docs = Inr cv" and ok: "vocabulary_ok cv"
    and tk: "Tokenizer_init cvz docs V lc = Inr tk"
    and m: "0 \<le> m"
    and draw: "mask_prob = - 1 \<longrightarrow> randint_value r < length (doc_tok ex)"
  shows "\<exists>f. convert_example_to_features mask_prob r ex m tk = Inr f
    \<and> length (input_ids f) = nat m \<and> length (input_mask f) = nat m
    \<and> length (doc_id f) = nat m \<and> length (lm_label_ids f) = nat m
    \<and> (\<forall>i. length (doc_tok ex) \<le> i \<and> i < nat m
          \<longrightarrow> input_ids f ! i = 0 \<and> input_mask f ! i = 0 \<and> doc_id f ! i = 0
            \<and> lm_label_ids f ! i = - 1)
    \<and> (\<forall>i < nat m. lm_label_ids f ! i \<noteq> - 1
          \<longleftrightarrow> i < length (doc_tok ex) \<and> masked_at mask_prob r i)"
proof -
  let ?k = "length (doc_tok ex)"
  from Tokenizer_init_unk_id[OF tk] obtain u where u: "map_of (vocab tk) ''[UNK]'' = Some u"
    by blast
  from Tokenizer_init_mask_id[OF tk] obtain mv where
    mv: "map_of (vocab tk) ''[MASK]'' = Some mv" "1 \<le> mv" by blast
  from random_word_Inr[OF u mv(1) draw] obtain ts ls where
    rw: "random_word mask_prob r (doc_tok ex) tk = Inr (ts, ls)"
    and lts: "length ts = ?k" and lls: "length ls = ?k"
    and lab: "\<And>j. j < ?k \<Longrightarrow>
        ls ! j = (if masked_at mask_prob r j
                  then (if mask_prob = - 1 then mv
                        else label_of (vocab tk) u (doc_tok ex ! j))
                  else - 1)"
    by blast
  let ?ids = "map (label_of (vocab tk) u) ts"
  have ct: "convert_tokens_to_ids tk ts = Inr ?ids"
    by (rule convert_tokens_to_ids_Inr[OF u])
  have len: "length ls = length ?ids" by (simp add: lts lls)
  define f where "f =
     \<lparr>input_ids = take (min ?k (nat m)) ?ids @ replicate (nat m - ?k) 0,
      input_mask = replicate (min ?k (nat m)) 1 @ replicate (nat m - ?k) 0,
      doc_id = replicate (min ?k (nat m)) (ex_doc_id ex) @ replicate (nat m - ?k) 0,
      lm_label_ids = take (min ?k (nat m)) ls @ replicate (nat m - ?k) (- 1)\<rparr>"
  have f: "convert_example_to_features mask_prob r ex m tk = Inr f"
    using convert_example_to_features_prefix_pad[OF rw ct len, of m] m
    by (auto simp: f_def lts)
  have f_ids: "input_ids f = take (min ?k (nat m)) ?ids @ replicate (nat m - ?k) 0"
    and f_msk: "input_mask f = replicate (min ?k (nat m)) 1 @ replicate (nat m - ?k) 0"
    and f_did: "doc_id f = replicate (min ?k (nat m)) (ex_doc_id ex) @ replicate (nat m - ?k) 0"
    and f_lbl: "lm_label_ids f = take (min ?k (nat m)) ls @ replicate (nat m - ?k) (- 1)"
    by (simp_all add: f_def)
  have lens: "length (input_ids f) = nat m" "length (input_mask f) = nat m"
      "length (doc_id f) = nat m" "length (lm_label_ids f) = nat m"
    by (auto simp: f_ids f_msk f_did f_lbl lts lls)
  have pad: "input_ids f ! i = 0 \<and> input_mask f ! i = 0 \<and> doc_id f ! i = 0
      \<and> lm_label_ids f ! i = - 1" if "?k \<le> i" "i < nat m" for i
  proof -
    from that have q: "min ?k (nat m) = ?k" and i: "i - ?k < nat m - ?k" by auto
    show ?thesis
      using that i by (simp add: f_ids f_msk f_did f_lbl q nth_append lts lls)
  qed
  have nonneg: "label_of (vocab tk) u t \<noteq> - 1" for t
    using label_of_nonneg[OF cv ok tk u, of t] by simp
  have lbl: "lm_label_ids f ! i \<noteq> - 1 \<longleftrightarrow> i < ?k \<and> masked_at mask_prob r i"
    if "i < nat m" for i
  proof (cases "i < ?k")
    case True
    with that have "lm_label_ids f ! i = ls ! i"
      by (simp add: f_lbl nth_append lls)
    with lab[OF True] True mv(2) nonneg show ?thesis by auto
  next
    case False
    with that pad[of i] show ?thesis by simp
  qed
  from f lens pad lbl show ?thesis by blast
qed


theorem feature_lengths_padding_labels_witness:
  "cat_sat_vectorizer (4 - 2) [''cat sat'', ''cat sat''] = Inr [(''cat'', 0), (''sat'', 1)]
   \<and> vocabulary_ok [(''cat'', 0), (''sat'', 1)]
   \<and> Tokenizer_init cat_sat_vectorizer [''cat sat'', ''cat sat''] 4 True = Inr cat_sat_tokenizer
   \<and> (0::int) \<le> 5
   \<and> randint_value \<lparr>randint_value = 1, random_values = (\<lambda>_. 0)\<rparr>
        < length (doc_tok \<lparr>guid = 0, doc_tok = [''sat'', ''cat'', ''sat''], ex_doc_id = 7\<rparr>)
   \<and> (\<exists>f. convert_example_to_features (- 1) \<lparr>randint_value = 1, random_values = (\<lambda>_. 0)\<rparr>
              \<lparr>guid = 0, doc_tok = [''sat'', ''cat'', ''sat''], ex_doc_id = 7\<rparr> 5
              cat_sat_tokenizer = Inr f
         \<and> length (input_ids f) = 5 \<and> length (input_mask f) = 5
         \<and> length (doc_id f) = 5 \<and> length (lm_label_ids f) = 5
         \<and> input_ids f ! 3 = 0 \<and> input_mask f ! 3 = 0 \<and> doc_id f ! 3 = 0
         \<and> lm_label_ids f ! 3 = - 1 \<and> lm_label_ids f ! 1 \<noteq> - 1 \<and> lm_label_ids f ! 0 = - 1)"
proof -
  let ?r = "\<lparr>randint_value = 1, random_values = (\<lambda>_. 0)\<rparr>"
  let ?ex = "\<lparr>guid = 0, doc_tok = [''sat'', ''cat'', ''sat''], ex_doc_id = 7\<rparr>"
  have h1: "cat_sat_vectorizer (4 - 2) [''cat sat'', ''cat sat''] = Inr [(''cat'', 0), (''sat'', 1)]"
    by (simp add: cat_sat_vectorizer_def)
  have h2: "vocabulary_ok [(''cat'', 0), (''sat'', 1)]"
    by (simp add: vocabulary_ok_def)
  have h3: "Tokenizer_init cat_sat_vectorizer [''cat sat'', ''cat sat''] 4 True
              = Inr cat_sat_tokenizer"
    by (rule cat_sat_tokenizer_built)
  have h4: "(0::int) \<le> 5" by simp
  have h5: "(- 1::real) = - 1 \<longrightarrow> randint_value ?r < length (doc_tok ?ex)" by simp
  from feature_lengths_padding_labels[OF h1 h2 h3 h4 h5] obtain f where
    f: "convert_example_to_features (- 1) ?r ?ex 5 cat_sat_tokenizer = Inr f"
    and l: "length (input_ids f) = nat 5" "length (input_mask f) = nat 5"
      "length (doc_id f) = nat 5" "length (lm_label_ids f) = nat 5"
    and p: "\<forall>i. length (doc_tok ?ex) \<le> i \<and> i < nat 5
          \<longrightarrow> input_ids f ! i = 0 \<and> input_mask f ! i = 0 \<and> doc_id f ! i = 0
            \<and> lm_label_ids f ! i = - 1"
    and m: "\<forall>i < nat 5. lm_label_ids f ! i \<noteq> - 1
          \<longleftrightarrow> i < length (doc_tok ?ex) \<and> masked_at (- 1) ?r i"
    by blast
  from p have p3: "input_ids f ! 3 = 0 \<and> input_mask f ! 3 = 0 \<and> doc_id f ! 3 = 0
      \<and> lm_label_ids f ! 3 = - 1" by simp
  from m have m1: "lm_label_ids f ! 1 \<noteq> - 1" by (simp add: masked_at_def)
  from m have "\<not> lm_label_ids f ! 0 \<noteq> - 1" by (simp add: masked_at_def)
  then have m0: "lm_label_ids f ! 0 = - 1" by simp
  show ?thesis
    using h1 h2 h3 f l p3 m1 m0 by auto
qed

text \<open>The record of that example, computed.\<close>

lemma convert_example_to_features_cat_sat:
  "convert_example_to_features (- 1) \<lparr>randint_value = 1, random_values = (\<lambda>_. 0)\<rparr>
       \<lparr>guid = 0, doc_tok = [''sat'', ''cat'', ''sat''], ex_doc_id = 7\<rparr> 5 cat_sat_tokenizer
     = Inr \<lparr>input_ids = [1, 3, 1, 0, 0], input_mask = [1, 1, 1, 0, 0],
            doc_id = [7, 7, 7, 0, 0], lm_label_ids = [- 1, 3, - 1, - 1, - 1]\<rparr>"
  by (simp add: convert_example_to_features_def random_word_def cat_sat_tokenizer_def
      dict_index_def zero_pad_eq Let_def numeral_2_eq_2 del: zero_pad.simps)

text \<open>A negative \<open>max_seq_length\<close> is no length: the slices then drop elements from the
  end and nothing is padded.\<close>

lemma convert_example_to_features_negative_length:
  "convert_example_to_features (- 1) \<lparr>randint_value = 1, random_values = (\<lambda>_. 0)\<rparr>
       \<lparr>guid = 0, doc_tok = [''sat'', ''cat'', ''sat''], ex_doc_id = 7\<rparr> (- 1) cat_sat_tokenizer
     = Inr \<lparr>input_ids = [1, 3], input_mask = [1, 1],
            doc_id = [7, 7], lm_label_ids = [- 1, 3]\<rparr>"
  by (simp add: convert_example_to_features_def random_word_def cat_sat_tokenizer_def
      dict_index_def zero_pad_eq slice_to_def Let_def eval_nat_numeral del: zero_pad.simps)


lemma truthy_iff: "truthy (map_of voc x) \<longleftrightarrow> (\<exists>v. map_of voc x = Some v \<and> v \<noteq> 0)"
  by (simp add: truthy_def split: option.splits)

lemma convert_example_to_features_InrD:
  assumes "convert_example_to_features mask_prob r ex m tk = Inr f"
  obtains ts ls ids where "random_word mask_prob r (doc_tok ex) tk = Inr (ts, ls)"
    and "convert_tokens_to_ids tk ts = Inr ids"
  using assms
  by (auto simp: convert_example_to_features_def split: sum.splits prod.splits)

lemma getitem_InrD:
  assumes "getitem mask_prob r ds item = Inr (ds', f)" and "ds_tokenizer ds = Some tk"
  shows "item < length (all_docs ds)"
    and "convert_example_to_features mask_prob r
           \<lparr>guid = sample_counter ds,
            doc_tok = filter (\<lambda>x. truthy (map_of (vocab tk) x)) (tokenize (all_docs ds ! item)),
            ex_doc_id = int item\<rparr> (seq_len ds) tk = Inr f"
    and "ds' = ds\<lparr>sample_counter := sample_counter ds + 1\<rparr>"
  using assms
  by (auto simp: getitem_def Let_def split: sum.splits if_splits)

text \<open>A sample over the small corpus: \<open>cat\<close> has id 0 and is dropped, \<open>sat\<close> is masked.\<close>

lemma getitem_cat_sat:
  "getitem (- 1) \<lparr>randint_value = 0, random_values = (\<lambda>_. 0)\<rparr> cat_sat_dataset 0
     = Inr (cat_sat_dataset\<lparr>sample_counter := 1\<rparr>,
            \<lparr>input_ids = [3, 0, 0, 0, 0], input_mask = [1, 0, 0, 0, 0],
             doc_id = [0, 0, 0, 0, 0], lm_label_ids = [3, - 1, - 1, - 1, - 1]\<rparr>)"
  by (simp add: getitem_def cat_sat_dataset_def cat_sat_tokenizer_def tokenize_def
      simple_preprocess_def str_lower_def lower_char_def is_alphabetic_def truthy_def
      convert_example_to_features_def random_word_def dict_index_def zero_pad_eq Let_def
      eval_nat_numeral del: zero_pad.simps)

section \<open>Samples never hold the id 0 at a real position\<close>

text \<open>
  C10. \<open>__getitem__\<close> keeps a token only when \<open>vocab.get\<close> of it is true, which drops
  the tokens the vocabulary lacks and the token whose id is 0. For every tokenizer built
  by \<open>Tokenizer.__init__\<close> and every sample produced, no position with
  \<open>input_mask = 1\<close> holds the id 0, and (for a sequence length that is not negative) the
  real positions are as many as the tokens with a non-zero id, up to the sequence length.
\<close>

theorem getitem_drops_id_zero:
  assumes tk: "Tokenizer_init cvz docs V lc = Inr tk"
    and ds: "ds_tokenizer ds = Some tk"
    and g: "getitem mask_prob r ds item = Inr (ds', f)"
  shows "(\<forall>i < length (input_ids f). input_mask f ! i = 1 \<longrightarrow> input_ids f ! i \<noteq> 0)
    \<and> (0 \<le> seq_len ds \<longrightarrow>
         input_mask f =
           replicate (min (length (filter (\<lambda>x. \<exists>v. map_of (vocab tk) x = Some v \<and> v \<noteq> 0)
                                      (tokenize (all_docs ds ! item))))
                          (nat (seq_len ds))) 1
           @ replicate (nat (seq_len ds)
                         - length (filter (\<lambda>x. \<exists>v. map_of (vocab tk) x = Some v \<and> v \<noteq> 0)
                                     (tokenize (all_docs ds ! item)))) 0)"
proof -
  let ?kept = "filter (\<lambda>x. truthy (map_of (vocab tk) x)) (tokenize (all_docs ds ! item))"
  let ?ex = "\<lparr>guid = sample_counter ds, doc_tok = ?kept, ex_doc_id = int item\<rparr>"
  have kept: "?kept = filter (\<lambda>x. \<exists>v. map_of (vocab tk) x = Some v \<and> v \<noteq> 0)
                        (tokenize (all_docs ds ! item))"
    by (simp add: truthy_iff)
  from getitem_InrD(2)[OF g ds]
  have cef: "convert_example_to_features mask_prob r ?ex (seq_len ds) tk = Inr f" .
  from Tokenizer_init_unk_id[OF tk] obtain u where u: "map_of (vocab tk) ''[UNK]'' = Some u"
    by blast
  from Tokenizer_init_mask_id[OF tk] obtain mv where
    mv: "map_of (vocab tk) ''[MASK]'' = Some mv" "1 \<le> mv" by blast
  have draw: "mask_prob = - 1 \<longrightarrow> randint_value r < length (doc_tok ?ex)"
  proof (rule ccontr)
    assume "\<not> ?thesis"
    then have "mask_prob = - 1" "\<not> randint_value r < length (doc_tok ?ex)" by auto
    from random_word_single_fails[OF this(2), of tk] this(1) cef show False
      by (auto simp: convert_example_to_features_def)
  qed
  from random_word_Inr[OF u mv(1) draw] obtain ts ls where
    rw: "random_word mask_prob r (doc_tok ?ex) tk = Inr (ts, ls)"
    and lts: "length ts = length ?kept" and lls: "length ls = length ?kept"
    and tsj: "\<And>j. j < length ?kept \<Longrightarrow>
        ts ! j = (if masked_at mask_prob r j then ''[MASK]'' else ?kept ! j)"
    by auto
  let ?ids = "map (label_of (vocab tk) u) ts"
  have ct: "convert_tokens_to_ids tk ts = Inr ?ids"
    by (rule convert_tokens_to_ids_Inr[OF u])
  have len: "length ls = length ?ids" by (simp add: lts lls)
  from convert_example_to_features_prefix_pad[OF rw ct len, of "seq_len ds"]
  obtain q j where q: "q \<le> length ?ids"
    and qj: "0 \<le> seq_len ds \<longrightarrow> q = min (length ?ids) (nat (seq_len ds))
                \<and> j = nat (seq_len ds) - length ?ids"
    and eq: "convert_example_to_features mask_prob r ?ex (seq_len ds) tk =
         Inr \<lparr>input_ids = take q ?ids @ replicate j 0,
              input_mask = replicate q 1 @ replicate j 0,
              doc_id = replicate q (ex_doc_id ?ex) @ replicate j 0,
              lm_label_ids = take q ls @ replicate j (- 1)\<rparr>"
    by blast
  from eq cef have f_ids: "input_ids f = take q ?ids @ replicate j 0"
    and f_msk: "input_mask f = replicate q 1 @ replicate j 0"
    by auto
  have nz: "?ids ! i \<noteq> 0" if "i < length ?kept" for i
  proof (cases "masked_at mask_prob r i")
    case True
    with tsj[OF that] mv that lts show ?thesis by (simp add: label_of_def)
  next
    case False
    from that have "?kept ! i \<in> set ?kept" by (rule nth_mem)
    then have "truthy (map_of (vocab tk) (?kept ! i))" by simp
    with False tsj[OF that] that lts show ?thesis
      by (auto simp: label_of_def truthy_iff)
  qed
  have real: "input_ids f ! i \<noteq> 0" if "i < length (input_ids f)" "input_mask f ! i = 1" for i
  proof (cases "i < q")
    case True
    with q have "input_ids f ! i = ?ids ! i" by (simp add: f_ids nth_append)
    moreover from True q have "i < length ?kept" by (simp add: lts)
    ultimately show ?thesis using nz by simp
  next
    case False
    with that(1) have "input_mask f ! i = 0"
      by (simp add: f_msk f_ids nth_append q min_absorb2)
    with that(2) show ?thesis by simp
  qed
  have shape: "input_mask f = replicate (min (length ?kept) (nat (seq_len ds))) 1
                 @ replicate (nat (seq_len ds) - length ?kept) 0" if "0 \<le> seq_len ds"
    using qj that by (simp add: f_msk lts)
  from real shape show ?thesis unfolding kept by blast
qed


theorem getitem_drops_id_zero_witness:
  "Tokenizer_init cat_sat_vectorizer [''cat sat'', ''cat sat''] 4 True = Inr cat_sat_tokenizer
   \<and> ds_tokenizer cat_sat_dataset = Some cat_sat_tokenizer
   \<and> getitem (- 1) \<lparr>randint_value = 0, random_values = (\<lambda>_. 0)\<rparr> cat_sat_dataset 0
       = Inr (cat_sat_dataset\<lparr>sample_counter := 1\<rparr>,
              \<lparr>input_ids = [3, 0, 0, 0, 0], input_mask = [1, 0, 0, 0, 0],
               doc_id = [0, 0, 0, 0, 0], lm_label_ids = [3, - 1, - 1, - 1, - 1]\<rparr>)
   \<and> map_of (vocab cat_sat_tokenizer) ''cat'' = Some 0
   \<and> tokenize (all_docs cat_sat_dataset ! 0) = [''cat'', ''sat'']
   \<and> input_ids \<lparr>input_ids = [3, 0, 0, 0, 0], input_mask = [1, 0, 0, 0, 0],
               doc_id = [0, 0, 0, 0, 0], lm_label_ids = [3, - 1, - 1, - 1, - 1]\<rparr> ! 0 \<noteq> 0"
proof -
  let ?f = "\<lparr>input_ids = [3, 0, 0, 0, 0], input_mask = [1, 0, 0, 0, 0],
               doc_id = [0, 0, 0, 0, 0], lm_label_ids = [3, - 1, - 1, - 1, - 1::int]\<rparr>"
  have h1: "Tokenizer_init cat_sat_vectorizer [''cat sat'', ''cat sat''] 4 True
              = Inr cat_sat_tokenizer"
    by (rule cat_sat_tokenizer_built)
  have h2: "ds_tokenizer cat_sat_dataset = Some cat_sat_tokenizer"
    by (simp add: cat_sat_dataset_def)
  note h3 = getitem_cat_sat
  have t: "tokenize (all_docs cat_sat_dataset ! 0) = [''cat'', ''sat'']"
    by (simp add: cat_sat_dataset_def tokenize_def simple_preprocess_def str_lower_def
        lower_char_def is_alphabetic_def)
  have c: "map_of (vocab cat_sat_tokenizer) ''cat'' = Some 0"
    by (simp add: cat_sat_tokenizer_def)
  from getitem_drops_id_zero[OF h1 h2 h3]
  have "\<forall>i < length (input_ids ?f). input_mask ?f ! i = 1 \<longrightarrow> input_ids ?f ! i \<noteq> 0"
    by (rule conjunct1)
  then have n: "input_ids ?f ! 0 \<noteq> 0" by simp
  from h1 h2 h3 c t n show ?thesis by (intro conjI)
qed


lemma Tokenizer_init_rejected:
  assumes "rejects_negative_max_features cvz" and "V < 2"
  shows "Tokenizer_init cvz docs V lc = Inl ValueError"
  using assms by (simp add: Tokenizer_init_def rejects_negative_max_features_def)

lemma run_config_rejected:
  assumes "rejects_negative_max_features (count_vectorizer ev)"
    and "vocab_size (rs_args st) < 2"
  shows "\<exists>e st'. run_config ev c p st = (Some e, st')
           \<and> epochs_started st' = epochs_started st \<and> hook_calls st' = hook_calls st
           \<and> best_scores st' = best_scores st"
  using Tokenizer_init_rejected[OF assms(1), of "vocab_size (rs_args st)"] assms(2)
  by (auto simp: run_config_def Let_def split: sum.splits)

lemma run_config_rejected_ValueError:
  assumes "rejects_negative_max_features (count_vectorizer ev)"
    and "vocab_size (rs_args st) < 2"
    and "1 \<le> gradient_accumulation_steps (rs_args st)" and "do_train (rs_args st)"
    and "rs_dataset st = DatasetObj docs ents"
    and "train_batch_size (rs_args st) div gradient_accumulation_steps (rs_args st) \<noteq> 0"
  shows "fst (run_config ev c p st) = Some ValueError"
  using Tokenizer_init_rejected[OF assms(1), of "vocab_size (rs_args st)"] assms(2-)
  by (auto simp: run_config_def Let_def MyDataset_init_def load_docs_def split: sum.splits)

section \<open>A vocabulary size below 2\<close>

text \<open>
  C6. \<open>Tokenizer.__init__\<close> has no check of its own: it hands \<open>vocab_size - 2\<close> to the
  vectorizer as \<open>max_features\<close>. With a vectorizer that rejects a negative
  \<open>max_features\<close>, every \<open>vocab_size < 2\<close> makes the construction fail with
  \<open>ValueError\<close>, and \<open>main\<close> fails in its first configuration before any epoch starts
  and before the hook is called; when the earlier steps of \<open>main\<close> pass, the error it
  raises is that \<open>ValueError\<close>.
\<close>

theorem small_vocab_size_fails_before_training:
  assumes sk: "rejects_negative_max_features (count_vectorizer ev)"
    and V: "vocab_size a < 2"
  shows "Tokenizer_init (count_vectorizer ev) docs (vocab_size a) lc = Inl ValueError
    \<and> (\<exists>e st. main ev ds a = (Some e, st)
          \<and> epochs_started st = 0 \<and> hook_calls st = 0 \<and> best_scores st = [])
    \<and> (1 \<le> gradient_accumulation_steps a \<and> do_train a
          \<and> train_batch_size a div gradient_accumulation_steps a \<noteq> 0
          \<and> (\<exists>ds_docs ents. ds = DatasetObj ds_docs ents)
        \<longrightarrow> fst (main ev ds a) = Some ValueError)"
proof -
  let ?st = "\<lparr>rs_args = a, rs_dataset = ds, best_scores = [], epochs_started = 0,
              hook_calls = 0\<rparr>"
  obtain p ps where ps: "probs_of a = p # ps"
    by (cases "all_mask a") (auto simp: probs_of_def)
  from V have V': "vocab_size (rs_args ?st) < 2" by simp
  from run_config_rejected[OF sk V', of 0 p] obtain e st' where
    rc: "run_config ev 0 p ?st = (Some e, st')"
    and z: "epochs_started st' = 0" "hook_calls st' = 0" "best_scores st' = []"
    by auto
  have m: "main ev ds a = (Some e, st')"
    by (simp add: main_def ps rc)
  have ve: "fst (main ev ds a) = Some ValueError"
    if "1 \<le> gradient_accumulation_steps a" "do_train a"
      "train_batch_size a div gradient_accumulation_steps a \<noteq> 0"
      "ds = DatasetObj ds_docs ents" for ds_docs ents
  proof -
    from run_config_rejected_ValueError[OF sk V', of ds_docs ents 0 p] that
    have "fst (run_config ev 0 p ?st) = Some ValueError" by simp
    with rc show ?thesis by (simp add: m)
  qed
  from Tokenizer_init_rejected[OF sk V] m z ve show ?thesis by blast
qed

theorem small_vocab_size_fails_before_training_witness:
  "rejects_negative_max_features (count_vectorizer (cat_sat_env (\<lambda>c k. HNone)))
   \<and> vocab_size (cat_sat_args\<lparr>vocab_size := 1\<rparr>) < 2
   \<and> Tokenizer_init (count_vectorizer (cat_sat_env (\<lambda>c k. HNone))) [''cat sat'', ''cat sat'']
         (vocab_size (cat_sat_args\<lparr>vocab_size := 1\<rparr>)) True = Inl ValueError
   \<and> fst (main (cat_sat_env (\<lambda>c k. HNone)) (DatasetObj [''cat sat'', ''cat sat''] None)
            (cat_sat_args\<lparr>vocab_size := 1\<rparr>)) = Some ValueError"
proof -
  let ?ev = "cat_sat_env (\<lambda>c k. HNone)"
  let ?a = "cat_sat_args\<lparr>vocab_size := 1\<rparr>"
  let ?ds = "DatasetObj [''cat sat'', ''cat sat''] None"
  have h1: "rejects_negative_max_features (count_vectorizer ?ev)"
    by (simp add: rejects_negative_max_features_def cat_sat_env_def cat_sat_vectorizer_def)
  have h2: "vocab_size ?a < 2" by simp
  have pre: "1 \<le> gradient_accumulation_steps ?a \<and> do_train ?a
          \<and> train_batch_size ?a div gradient_accumulation_steps ?a \<noteq> 0
          \<and> (\<exists>ds_docs ents. ?ds = DatasetObj ds_docs ents)"
    by (simp add: cat_sat_args_def)
  from small_vocab_size_fails_before_training[OF h1 h2, of "[''cat sat'', ''cat sat'']" True ?ds]
  have t: "Tokenizer_init (count_vectorizer ?ev) [''cat sat'', ''cat sat''] (vocab_size ?a) True
             = Inl ValueError"
    and m: "1 \<le> gradient_accumulation_steps ?a \<and> do_train ?a
          \<and> train_batch_size ?a div gradient_accumulation_steps ?a \<noteq> 0
          \<and> (\<exists>ds_docs ents. ?ds = DatasetObj ds_docs ents)
        \<longrightarrow> fst (main ?ev ?ds ?a) = Some ValueError"
    by blast+
  from m pre have "fst (main ?ev ?ds ?a) = Some ValueError" by (rule mp)
  with h1 h2 t show ?thesis by (intro conjI)
qed


section \<open>The scenario of three real tokens\<close>

lemma tokenize_the_cat_sat: "tokenize ''the cat sat'' = [''the'', ''cat'', ''sat'']"
  by (simp add: tokenize_def simple_preprocess_def str_lower_def lower_char_def
      is_alphabetic_def)

lemma tokenize_the_dog_ran: "tokenize ''the dog ran'' = [''the'', ''dog'', ''ran'']"
  by (simp add: tokenize_def simple_preprocess_def str_lower_def lower_char_def
      is_alphabetic_def)

lemma tokenize_empty: "tokenize '''' = []"
  by (simp add: tokenize_def simple_preprocess_def str_lower_def)

lemma convert_example_to_features_no_tokens:
  "doc_tok ex = [] \<Longrightarrow> convert_example_to_features (- 1) r ex m tk = Inl ValueError"
  by (simp add: convert_example_to_features_def random_word_def)


lemma the_vectorizer_ok: "vocabulary_ok [(''the'', 0)]"
  by (simp add: vocabulary_ok_def)

text \<open>In a corpus where \<open>the\<close> gets a non-zero id, the document \<open>the cat sat\<close>
  yields a sample with one real token.\<close>

lemma an_the_tokenizer_built:
  "Tokenizer_init an_the_vectorizer [''the cat sat'', ''an the'', ''an''] 4 True
     = Inr an_the_tokenizer"
  by (simp add: Tokenizer_init_def an_the_vectorizer_def an_the_tokenizer_def
      dict_of_items_def)

lemma getitem_an_the:
  "getitem (- 1) \<lparr>randint_value = 0, random_values = (\<lambda>_. 0)\<rparr> an_the_dataset 0
     = Inr (an_the_dataset\<lparr>sample_counter := 1\<rparr>,
            \<lparr>input_ids = [3, 0, 0, 0, 0], input_mask = [1, 0, 0, 0, 0],
             doc_id = [0, 0, 0, 0, 0], lm_label_ids = [3, - 1, - 1, - 1, - 1]\<rparr>)"
  by (simp add: getitem_def an_the_dataset_def an_the_tokenizer_def tokenize_the_cat_sat
      truthy_def convert_example_to_features_def random_word_def dict_index_def zero_pad_eq
      Let_def eval_nat_numeral del: zero_pad.simps)




lemma scenario_dataset_built:
  "map_sum id (\<lambda>ds. build_vocab ds scenario_tokenizer)
     (MyDataset_init (CorpusList scenario_corpus) 5) = Inr scenario_dataset"
  by (simp add: MyDataset_init_def load_docs_def build_vocab_def scenario_dataset_def
      scenario_corpus_def)

lemma scenario_file_docs:
  "load_docs (CorpusPath scenario_corpus) = Inr ([''the cat sat'', ''the dog ran''], 2)"
  by (simp add: load_docs_def scenario_corpus_def strip_def is_space_def Let_def)






text \<open>For the list reading no draw and no index gives a sample.\<close>

lemma scenario_every_draw_fails:
  "provide_sample the_vectorizer (CorpusList scenario_corpus) 5 28000 (- 1) r item
     \<in> {Inl ValueError, Inl IndexError}"
proof -
  have "item = 0 \<or> item = 1 \<or> item = 2 \<or> item = 3 \<or> 4 \<le> item" by arith
  then show ?thesis
    by (auto simp: provide_sample_def MyDataset_init_def load_docs_def scenario_corpus_def
      Let_def Tokenizer_init_def the_vectorizer_def build_vocab_def
      getitem_def tokenize_the_cat_sat tokenize_the_dog_ran tokenize_empty truthy_def
      convert_example_to_features_no_tokens)
qed



end
